theory Spec2Isabelle
  imports Main
begin

section \<open>Data model\<close>

subsection \<open>Identifiers, JSON values, exceptions\<close>

text \<open>
  Message and tool-call identifiers are Python strings. Some are supplied by the vendor
  or derived from vendor strings (\<open>Named\<close>), the others are produced by
  \<^verbatim>\<open>str(uuid.uuid4())\<close>. The latter are modelled by a counter that every
  call of \<^verbatim>\<open>uuid4\<close> advances, so that two calls never return the same
  identifier and a generated identifier never equals a vendor string.
\<close>

datatype ident = Uuid nat | Named string

text \<open>
  Values of Python type \<^verbatim>\<open>Any\<close> that travel through the translator (shared state,
  tool input, tool result content) are JSON values. \<open>JNull\<close> is Python's \<^verbatim>\<open>None\<close>;
  a \<^verbatim>\<open>dict\<close> is an association list in insertion order.
\<close>

datatype json =
    JNull
  | JBool bool
  | JNum int
  | JStr string
  | JArr "json list"
  | JObj "(string \<times> json) list"

text \<open>Python truthiness (\<^verbatim>\<open>if x:\<close>) of a JSON value.\<close>

fun truthy :: "json \<Rightarrow> bool" where
  "truthy JNull = False"
| "truthy (JBool b) = b"
| "truthy (JNum n) = (n \<noteq> 0)"
| "truthy (JStr s) = (s \<noteq> [])"
| "truthy (JArr xs) = (xs \<noteq> [])"
| "truthy (JObj kvs) = (kvs \<noteq> [])"

text \<open>Truthiness of an \<^verbatim>\<open>Optional[str]\<close>: neither \<^verbatim>\<open>None\<close> nor empty.\<close>

fun truthy_str :: "string option \<Rightarrow> bool" where
  "truthy_str None = False"
| "truthy_str (Some s) = (s \<noteq> [])"

text \<open>\<^verbatim>\<open>d.get(k)\<close> on a dict.\<close>

definition dict_get :: "(string \<times> json) list \<Rightarrow> string \<Rightarrow> json option" where
  "dict_get d k = map_of d k"

text \<open>
  \<^verbatim>\<open>d[k] = v\<close> keeps the position of an existing key and appends a new one;
  \<^verbatim>\<open>{**a, **b}\<close> copies \<open>a\<close> and then stores the items of \<open>b\<close> in order.
\<close>

fun dict_set :: "(string \<times> json) list \<Rightarrow> string \<Rightarrow> json \<Rightarrow> (string \<times> json) list" where
  "dict_set [] k v = [(k, v)]"
| "dict_set ((k', v') # d) k v = (if k' = k then (k, v) # d else (k', v') # dict_set d k v)"

fun dict_merge :: "(string \<times> json) list \<Rightarrow> (string \<times> json) list \<Rightarrow> (string \<times> json) list" where
  "dict_merge a [] = a"
| "dict_merge a ((k, v) # b) = dict_merge (dict_set a k v) b"

text \<open>A Python exception: its class name and what \<^verbatim>\<open>str(e)\<close> returns.\<close>

datatype py_exception = PyException (exc_type: string) (exc_str: string)

text \<open>
  Library functions that the repository calls but does not define: \<^verbatim>\<open>json.loads\<close>
  (\<open>None\<close> when it raises \<^verbatim>\<open>JSONDecodeError\<close>), \<^verbatim>\<open>json.dumps\<close>, \<^verbatim>\<open>str\<close> on a
  JSON-like value. They are parameters of the model.
\<close>

record pylib =
  json_loads :: "string \<Rightarrow> json option"
  json_dumps :: "json \<Rightarrow> string"
  py_str :: "json \<Rightarrow> string"

subsection \<open>Vendor (Claude SDK) messages\<close>

text \<open>
  The \<^verbatim>\<open>event\<close> dict of a \<^verbatim>\<open>StreamEvent\<close>, by its \<^verbatim>\<open>type\<close> key. A text field
  that the code reads with \<^verbatim>\<open>.get(key, '')\<close> and then tests for truthiness is a string,
  empty when the key is missing. The \<^verbatim>\<open>id\<close> and \<^verbatim>\<open>name\<close> of a tool-use block are
  \<open>None\<close> when the key is missing.
\<close>

datatype delta =
    TextDelta string
  | ThinkingDelta string
  | InputJsonDelta string
  | OtherDelta

datatype block_start =
    ThinkingStartBlock
  | ToolUseStartBlock "string option" "string option"
  | OtherStartBlock

datatype stream_event =
    MessageStart
  | ContentBlockDelta delta
  | ContentBlockStart block_start
  | ContentBlockStop
  | MessageStop
  | MessageDelta
  | OtherStreamEvent

text \<open>
  Content blocks of complete messages. \<open>block_type\<close> is what
  \<^verbatim>\<open>getattr(block, "type", None)\<close> returns; the block classes are declared by the SDK.
\<close>

datatype content_block =
    TextBlock (block_type: "string option") (block_text: string)
  | ThinkingBlock (block_type: "string option") (block_thinking: string)
  | ToolUseBlock (block_type: "string option") (block_id: string) (block_name: string)
      (block_input: "(string \<times> json) list")
  | ToolResultBlock (block_type: "string option") (block_tool_use_id: string)
      (block_content: json) (block_is_error: "bool option")

datatype message_content = ContentStr string | ContentBlocks "content_block list"

record system_data =
  data_message :: "string option"
  data_text :: "string option"
  data_session_id :: "string option"

record result_data =
  is_error :: "bool option"
  duration_ms :: "int option"
  duration_api_ms :: "int option"
  num_turns :: "int option"
  total_cost_usd :: json
  usage :: json
  structured_output :: json

datatype sdk_message =
    StreamEvent stream_event
  | AssistantMessage "content_block list" "string option"
  | UserMessage message_content "string option"
  | SystemMessage string "system_data option"
  | ResultMessage "string option" result_data
  | OtherMessage

section \<open>Session worker (session.py)\<close>

text \<open>
  What the vendor client does during one turn: \<^verbatim>\<open>client.query\<close> returns or raises,
  and \<^verbatim>\<open>client.receive_response()\<close> yields messages and then ends or raises.
\<close>

record vendor_turn =
  query_raises :: "py_exception option"
  response :: "sdk_message list"
  response_raises :: "py_exception option"

text \<open>Items of a turn's output queue: a message, a \<^verbatim>\<open>WorkerError\<close>, or \<^verbatim>\<open>None\<close>.\<close>

datatype queue_item = Item sdk_message | WorkerError py_exception | Sentinel

text \<open>The worker's own state: the session id captured from the init message.\<close>

record worker =
  session_id :: "string option"

text \<open>\<^verbatim>\<open>queue.put(x)\<close> appends at the tail of the queue.\<close>

definition put :: "queue_item list \<Rightarrow> queue_item \<Rightarrow> queue_item list" where
  "put q x = q @ [x]"

text \<open>The body of \<^verbatim>\<open>async for msg in client.receive_response()\<close>, lines 119-128.\<close>

definition capture_session_id :: "worker \<Rightarrow> sdk_message \<Rightarrow> worker" where
  "capture_session_id w msg =
     (case msg of
        SystemMessage subtype data \<Rightarrow>
          (if subtype = ''init'' then
             (case data of
                None \<Rightarrow> w
              | Some d \<Rightarrow> (if truthy_str (data_session_id d)
                           then w\<lparr>session_id := data_session_id d\<rparr> else w))
           else w)
      | _ \<Rightarrow> w)"

fun receive_response :: "worker \<Rightarrow> queue_item list \<Rightarrow> sdk_message list \<Rightarrow> worker \<times> queue_item list" where
  "receive_response w q [] = (w, q)"
| "receive_response w q (msg # msgs) =
     receive_response (capture_session_id w msg) (put q (Item msg)) msgs"

text \<open>
  One iteration of the worker loop for a dequeued turn, lines 114-138: the
  \<^verbatim>\<open>try\<close> block, the \<^verbatim>\<open>except Exception\<close> handler and the \<^verbatim>\<open>finally\<close> clause.
  The output queue is the fresh queue that \<^verbatim>\<open>query\<close> created for the turn.
\<close>

definition run_turn :: "worker \<Rightarrow> vendor_turn \<Rightarrow> worker \<times> queue_item list" where
  "run_turn w t =
     (let (w1, q1, raised) =
            (case query_raises t of
               Some e \<Rightarrow> (w, [], Some e)
             | None \<Rightarrow>
                 (let (w', q') = receive_response w [] (response t)
                  in (w', q', response_raises t)));
          q2 = (case raised of Some e \<Rightarrow> put q1 (WorkerError e) | None \<Rightarrow> q1)
      in (w1, put q2 Sentinel))"

text \<open>
  The \<^verbatim>\<open>while True\<close> loop of \<^verbatim>\<open>SessionWorker._run\<close> over the items of the input
  queue; it returns the output queue of every turn it served, in order.
\<close>

datatype input_item = Shutdown | Turn string string vendor_turn

fun worker_loop :: "worker \<Rightarrow> input_item list \<Rightarrow> worker \<times> queue_item list list" where
  "worker_loop w [] = (w, [])"
| "worker_loop w (Shutdown # items) = (w, [])"
| "worker_loop w (Turn prompt sid t # items) =
     (let (w1, q) = run_turn w t;
          (w2, qs) = worker_loop w1 items
      in (w2, q # qs))"

text \<open>The turns that the loop serves: those before the first shutdown item.\<close>

fun served :: "input_item list \<Rightarrow> vendor_turn list" where
  "served [] = []"
| "served (Shutdown # items) = []"
| "served (Turn prompt sid t # items) = t # served items"

text \<open>
  The consumer side, \<^verbatim>\<open>SessionWorker.query\<close> lines 205-211: the messages it yields and
  how it ends (\<open>None\<close>: it returns; \<open>Some e\<close>: it raises \<open>e\<close>). The result is
  \<open>None\<close> when the queue runs empty before a terminal item, where \<^verbatim>\<open>get()\<close> would
  wait forever.
\<close>

fun query :: "queue_item list \<Rightarrow> (sdk_message list \<times> py_exception option) option" where
  "query [] = None"
| "query (Sentinel # q) = Some ([], None)"
| "query (WorkerError e # q) = Some ([], Some e)"
| "query (Item msg # q) =
     (case query q of None \<Rightarrow> None | Some (msgs, r) \<Rightarrow> Some (msg # msgs, r))"

text \<open>The messages a turn forwards and the exception it ends with, if any.\<close>

definition forwarded :: "vendor_turn \<Rightarrow> sdk_message list" where
  "forwarded t = (case query_raises t of Some e \<Rightarrow> [] | None \<Rightarrow> response t)"

definition turn_exception :: "vendor_turn \<Rightarrow> py_exception option" where
  "turn_exception t = (case query_raises t of Some e \<Rightarrow> Some e | None \<Rightarrow> response_raises t)"

section \<open>AG-UI data (ag\_ui.core)\<close>

datatype tool_call = ToolCall (tc_id: string) (tc_name: string) (tc_arguments: string)

text \<open>
  Messages produced during a run: \<^verbatim>\<open>AssistantMessage(id, content, tool_calls)\<close>,
  \<^verbatim>\<open>DeveloperMessage(id, content)\<close>, \<^verbatim>\<open>SystemMessage(id, content)\<close> and
  \<^verbatim>\<open>ToolMessage(id, content, tool_call_id)\<close>.
\<close>

datatype agui_message =
    AssistantMsg ident "string option" "tool_call list option"
  | DeveloperMsg ident string
  | SystemMsg ident string
  | ToolMsg ident string string

text \<open>
  Messages of the request. The content is a string, a list of content blocks (for each
  block its \<^verbatim>\<open>text\<close> attribute, \<open>None\<close> when it has none), or \<^verbatim>\<open>None\<close>.
\<close>

datatype input_content = InText string | InBlocks "string option list" | InNone

record input_message =
  in_id :: string
  in_role :: string
  in_content :: input_content

record tool_def =
  tool_def_name :: string
  tool_def_description :: string
  tool_def_parameters :: json

record run_agent_input =
  inp_thread_id :: string
  inp_run_id :: string
  inp_parent_run_id :: "string option"
  inp_messages :: "input_message list"
  inp_tools :: "tool_def list"
  inp_state :: json
  inp_context :: "(string \<times> string) list"
  inp_forwarded_props :: json

text \<open>
  Entries of a messages snapshot: a message of the request, a message produced by the run,
  or a tool message converted to a dict and given a \<^verbatim>\<open>name\<close>
  (id, content, tool\_call\_id, name).
\<close>

datatype snapshot_message =
    InputMessage input_message
  | RunMessage agui_message
  | NamedToolMessage ident string string string

text \<open>
  The protocol events. Every event between run-started and run-finished also carries the
  \<^verbatim>\<open>thread_id\<close> and \<^verbatim>\<open>run_id\<close> of the run, passed through unchanged; they are kept
  on the three run events only. \<open>RunStarted\<close> echoes the request.
  Arguments: \<open>TextMessageStart message_id role\<close>, \<open>TextMessageContent message_id delta\<close>,
  \<open>ToolCallStart tool_call_id tool_call_name parent_message_id\<close>,
  \<open>ToolCallArgs tool_call_id delta\<close>, \<open>ToolCallResult message_id tool_call_id content\<close>.
\<close>

datatype event =
    RunStarted ident ident run_agent_input
  | RunFinished ident ident "result_data option"
  | RunError ident ident string
  | TextMessageStart ident string
  | TextMessageContent ident string
  | TextMessageEnd ident
  | ToolCallStart ident string "ident option"
  | ToolCallArgs ident string
  | ToolCallEnd ident
  | ToolCallResult ident ident string
  | ThinkingStart
  | ThinkingTextMessageStart
  | ThinkingTextMessageContent string
  | ThinkingTextMessageEnd
  | ThinkingEnd
  | StateSnapshot json
  | MessagesSnapshot "snapshot_message list"

section \<open>Helpers (utils.py, config.py)\<close>

definition STATE_MANAGEMENT_TOOL_NAME :: string where
  "STATE_MANAGEMENT_TOOL_NAME = ''ag_ui_update_state''"

definition STATE_MANAGEMENT_TOOL_FULL_NAME :: string where
  "STATE_MANAGEMENT_TOOL_FULL_NAME = ''mcp__ag_ui__ag_ui_update_state''"

definition is_state_management_tool :: "string \<Rightarrow> bool" where
  "is_state_management_tool name \<longleftrightarrow>
     name = STATE_MANAGEMENT_TOOL_NAME \<or> name = STATE_MANAGEMENT_TOOL_FULL_NAME"

text \<open>
  \<^verbatim>\<open>s.split("__")\<close>: leftmost, non-overlapping occurrences of the separator. The first
  argument is the current part, reversed.
\<close>

fun split_dunder :: "string \<Rightarrow> string \<Rightarrow> string list" where
  "split_dunder cur [] = [rev cur]"
| "split_dunder cur [c] = [rev (c # cur)]"
| "split_dunder cur (c # d # rest) =
     (if c = CHR ''_'' \<and> d = CHR ''_'' then rev cur # split_dunder [] rest
      else split_dunder (c # cur) (d # rest))"

fun join_dunder :: "string list \<Rightarrow> string" where
  "join_dunder [] = []"
| "join_dunder [p] = p"
| "join_dunder (p # q # ps) = p @ ''__'' @ join_dunder (q # ps)"

definition strip_mcp_prefix :: "string \<Rightarrow> string" where
  "strip_mcp_prefix tool_name =
     (if take 5 tool_name = ''mcp__'' then
        (let parts = split_dunder [] tool_name
         in if length parts \<ge> 3 then join_dunder (drop 2 parts) else tool_name)
      else tool_name)"

definition extract_tool_names :: "tool_def list \<Rightarrow> string list" where
  "extract_tool_names tools = filter (\<lambda>name. name \<noteq> []) (map tool_def_name tools)"

text \<open>The text of the first content block that has a \<^verbatim>\<open>text\<close> attribute, lines 123-129.\<close>

fun first_block_text :: "string option list \<Rightarrow> string" where
  "first_block_text [] = []"
| "first_block_text (None # blocks) = first_block_text blocks"
| "first_block_text (Some t # blocks) = t"

definition process_messages :: "run_agent_input \<Rightarrow> string \<times> bool" where
  "process_messages input_data =
     (let messages = inp_messages input_data;
          has_pending_tool_result = (messages \<noteq> [] \<and> in_role (last messages) = ''tool'');
          user_message =
            (if messages \<noteq> [] then
               (case in_content (last messages) of
                  InText s \<Rightarrow> s
                | InBlocks blocks \<Rightarrow> first_block_text blocks
                | InNone \<Rightarrow> [])
             else [])
      in (user_message, has_pending_tool_result))"

text \<open>Attribute reads with a default on a content block of any class.\<close>

definition text_attr :: "content_block \<Rightarrow> string" where
  "text_attr b = (case b of TextBlock ty t \<Rightarrow> t | _ \<Rightarrow> [])"

definition name_attr :: "content_block \<Rightarrow> string" where
  "name_attr b = (case b of ToolUseBlock ty i n inp \<Rightarrow> n | _ \<Rightarrow> ''unknown'')"

definition id_attr :: "content_block \<Rightarrow> string" where
  "id_attr b = (case b of ToolUseBlock ty i n inp \<Rightarrow> i | _ \<Rightarrow> [])"

definition input_attr :: "content_block \<Rightarrow> (string \<times> json) list" where
  "input_attr b = (case b of ToolUseBlock ty i n inp \<Rightarrow> inp | _ \<Rightarrow> [])"

text \<open>The loop of \<^verbatim>\<open>build_agui_assistant_message\<close>, lines 334-360.\<close>

fun collect_blocks :: "pylib \<Rightarrow> content_block list \<Rightarrow> string \<Rightarrow> tool_call list \<Rightarrow> string \<times> tool_call list" where
  "collect_blocks lib [] text_content tool_calls = (text_content, tool_calls)"
| "collect_blocks lib (block # blocks) text_content tool_calls =
     (if block_type block = Some ''text'' then
        collect_blocks lib blocks (text_content @ text_attr block) tool_calls
      else if block_type block = Some ''tool_use'' then
        (if is_state_management_tool (name_attr block) then
           collect_blocks lib blocks text_content tool_calls
         else
           collect_blocks lib blocks text_content
             (tool_calls @ [ToolCall (id_attr block) (strip_mcp_prefix (name_attr block))
                                     (json_dumps lib (JObj (input_attr block)))]))
      else collect_blocks lib blocks text_content tool_calls)"

definition build_agui_assistant_message :: "pylib \<Rightarrow> content_block list \<Rightarrow> ident \<Rightarrow> agui_message option" where
  "build_agui_assistant_message lib content_blocks message_id =
     (let (text_content, tool_calls) = collect_blocks lib content_blocks [] []
      in if text_content = [] \<and> tool_calls = [] then None
         else Some (AssistantMsg message_id
                      (if text_content \<noteq> [] then Some text_content else None)
                      (if tool_calls \<noteq> [] then Some tool_calls else None)))"

text \<open>
  The result string of a tool result, computed alike by \<^verbatim>\<open>build_agui_tool_message\<close>
  (lines 391-406) and \<^verbatim>\<open>handle_tool_result_block\<close> (lines 158-182) except for
  \<^verbatim>\<open>None\<close> content, where both give the empty string. \<^verbatim>\<open>json.loads\<close> of a value that
  is not a string raises \<^verbatim>\<open>TypeError\<close>, which the outer handler turns into \<^verbatim>\<open>str(content)\<close>.
\<close>

definition result_string :: "pylib \<Rightarrow> json \<Rightarrow> string" where
  "result_string lib content =
     (case content of
        JNull \<Rightarrow> []
      | JArr (JObj first_block # rest) \<Rightarrow>
          (if dict_get first_block ''type'' = Some (JStr ''text'') then
             (case dict_get first_block ''text'' of
                None \<Rightarrow> (case json_loads lib [] of Some parsed \<Rightarrow> json_dumps lib parsed | None \<Rightarrow> [])
              | Some (JStr text) \<Rightarrow>
                  (case json_loads lib text of Some parsed \<Rightarrow> json_dumps lib parsed | None \<Rightarrow> text)
              | Some other \<Rightarrow> py_str lib content)
           else json_dumps lib content)
      | _ \<Rightarrow> json_dumps lib content)"

definition build_agui_tool_message :: "pylib \<Rightarrow> string \<Rightarrow> json \<Rightarrow> agui_message" where
  "build_agui_tool_message lib tool_use_id content =
     ToolMsg (Named (tool_use_id @ ''-result'')) (result_string lib content) tool_use_id"

section \<open>Stream translator (adapter.py, handlers.py)\<close>

subsection \<open>Per-run state\<close>

record pending =
  pending_id :: ident
  pending_content :: string
  pending_tool_calls :: "tool_call list"

text \<open>
  The local variables of \<^verbatim>\<open>_stream_claude_sdk\<close>, the two adapter attributes it writes
  (\<^verbatim>\<open>self._current_state\<close>, \<^verbatim>\<open>self._last_result_data\<close>) and the uuid counter.
\<close>

record tstate =
  current_message_id :: "ident option"
  in_thinking_block :: bool
  has_streamed_text :: bool
  current_tool_call_id :: "string option"
  current_tool_call_name :: "string option"
  current_tool_display_name :: "string option"
  accumulated_tool_json :: string
  processed_tool_ids :: "string set"
  tool_name_by_id :: "string \<rightharpoonup> string"
  halt_event_stream :: bool
  run_messages :: "agui_message list"
  pending_msg :: "pending option"
  accumulated_thinking_text :: string
  message_count :: nat
  current_state :: json
  last_result_data :: "result_data option"
  next_uuid :: nat

definition init_tstate :: "json \<Rightarrow> nat \<Rightarrow> tstate" where
  "init_tstate state0 uuid0 =
     \<lparr> current_message_id = None,
       in_thinking_block = False,
       has_streamed_text = False,
       current_tool_call_id = None,
       current_tool_call_name = None,
       current_tool_display_name = None,
       accumulated_tool_json = [],
       processed_tool_ids = {},
       tool_name_by_id = Map.empty,
       halt_event_stream = False,
       run_messages = [],
       pending_msg = None,
       accumulated_thinking_text = [],
       message_count = 0,
       current_state = state0,
       last_result_data = None,
       next_uuid = uuid0 \<rparr>"

fun get_msg_id :: "agui_message \<Rightarrow> ident" where
  "get_msg_id (AssistantMsg i c tcs) = i"
| "get_msg_id (DeveloperMsg i c) = i"
| "get_msg_id (SystemMsg i c) = i"
| "get_msg_id (ToolMsg i c tcid) = i"

text \<open>\<^verbatim>\<open>upsert_message\<close>, lines 555-563: replace the first message with the same id, else append.\<close>

fun upsert :: "agui_message list \<Rightarrow> agui_message \<Rightarrow> agui_message list" where
  "upsert [] msg = [msg]"
| "upsert (m # ms) msg =
     (if get_msg_id m = get_msg_id msg then msg # ms else m # upsert ms msg)"

definition upsert_message :: "tstate \<Rightarrow> agui_message \<Rightarrow> tstate" where
  "upsert_message st msg = st\<lparr>run_messages := upsert (run_messages st) msg\<rparr>"

text \<open>\<^verbatim>\<open>flush_pending_msg\<close>, lines 565-583.\<close>

definition flush_pending_msg :: "tstate \<Rightarrow> tstate" where
  "flush_pending_msg st =
     (case pending_msg st of
        None \<Rightarrow> st
      | Some p \<Rightarrow>
          (let has_content = (pending_content p \<noteq> []);
               has_tools = (pending_tool_calls p \<noteq> []);
               st1 = (if has_content \<or> has_tools then
                        upsert_message st
                          (AssistantMsg (pending_id p)
                             (if has_content then Some (pending_content p) else None)
                             (if has_tools then Some (pending_tool_calls p) else None))
                      else st)
           in st1\<lparr>pending_msg := None\<rparr>))"

subsection \<open>Stream events (chunked path)\<close>

text \<open>\<^verbatim>\<open>message_start\<close>, lines 620-623.\<close>

definition on_message_start :: "tstate \<Rightarrow> tstate \<times> event list" where
  "on_message_start st =
     (let mid = Uuid (next_uuid st)
      in (st\<lparr>current_message_id := Some mid,
              next_uuid := Suc (next_uuid st),
              has_streamed_text := False,
              pending_msg := Some \<lparr>pending_id = mid, pending_content = [], pending_tool_calls = []\<rparr>\<rparr>,
          []))"

text \<open>\<^verbatim>\<open>text_delta\<close>, lines 629-650.\<close>

definition on_text_delta :: "tstate \<Rightarrow> string \<Rightarrow> tstate \<times> event list" where
  "on_text_delta st text_chunk =
     (case current_message_id st of
        None \<Rightarrow> (st, [])
      | Some mid \<Rightarrow>
          (if text_chunk \<noteq> [] then
             (st\<lparr>has_streamed_text := True,
                 pending_msg :=
                   (case pending_msg st of
                      None \<Rightarrow> None
                    | Some p \<Rightarrow> Some (p\<lparr>pending_content := pending_content p @ text_chunk\<rparr>))\<rparr>,
              (if \<not> has_streamed_text st then [TextMessageStart mid ''assistant''] else [])
              @ [TextMessageContent mid text_chunk])
           else (st, [])))"

text \<open>\<^verbatim>\<open>thinking_delta\<close>, lines 651-658.\<close>

definition on_thinking_delta :: "tstate \<Rightarrow> string \<Rightarrow> tstate \<times> event list" where
  "on_thinking_delta st thinking_chunk =
     (if thinking_chunk \<noteq> [] then
        (st\<lparr>accumulated_thinking_text := accumulated_thinking_text st @ thinking_chunk\<rparr>,
         [ThinkingTextMessageContent thinking_chunk])
      else (st, []))"

text \<open>\<^verbatim>\<open>input_json_delta\<close>, lines 659-673.\<close>

definition on_input_json_delta :: "tstate \<Rightarrow> string \<Rightarrow> tstate \<times> event list" where
  "on_input_json_delta st partial_json =
     (case current_tool_call_id st of
        None \<Rightarrow> (st, [])
      | Some tid \<Rightarrow>
          (if partial_json \<noteq> [] \<and> tid \<noteq> [] then
             (st\<lparr>accumulated_tool_json := accumulated_tool_json st @ partial_json\<rparr>,
              [ToolCallArgs (Named tid) partial_json])
           else (st, [])))"

text \<open>\<^verbatim>\<open>content_block_start\<close>, lines 675-701.\<close>

definition on_content_block_start :: "tstate \<Rightarrow> block_start \<Rightarrow> tstate \<times> event list" where
  "on_content_block_start st block =
     (case block of
        ThinkingStartBlock \<Rightarrow>
          (st\<lparr>in_thinking_block := True\<rparr>, [ThinkingStart, ThinkingTextMessageStart])
      | ToolUseStartBlock tool_id tool_name \<Rightarrow>
          (let name = (case tool_name of None \<Rightarrow> ''unknown'' | Some n \<Rightarrow> n);
               st1 = st\<lparr>current_tool_call_id := tool_id,
                        current_tool_call_name := Some name,
                        accumulated_tool_json := []\<rparr>
           in (case tool_id of
                 None \<Rightarrow> (st1, [])
               | Some tid \<Rightarrow>
                   (if tid \<noteq> [] then
                      (let display = strip_mcp_prefix name
                       in (st1\<lparr>current_tool_display_name := Some display,
                                processed_tool_ids := insert tid (processed_tool_ids st1),
                                tool_name_by_id := (tool_name_by_id st1)(tid \<mapsto> display)\<rparr>,
                           [ToolCallStart (Named tid) display (current_message_id st)]))
                    else (st1, []))))
      | OtherStartBlock \<Rightarrow> (st, []))"

text \<open>
  The state-tool interception at \<^verbatim>\<open>content_block_stop\<close>, lines 724-746. Both calls of
  \<^verbatim>\<open>json.loads\<close> are inside the \<^verbatim>\<open>try\<close>; a failure of either leaves the state as
  it is and emits nothing.
\<close>

definition intercept_state_update :: "pylib \<Rightarrow> tstate \<Rightarrow> tstate \<times> event list" where
  "intercept_state_update lib st =
     (case json_loads lib (accumulated_tool_json st) of
        None \<Rightarrow> (st, [])
      | Some (JObj state_updates) \<Rightarrow>
          (let updates0 = (case dict_get state_updates ''state_updates'' of
                             None \<Rightarrow> JObj state_updates
                           | Some u \<Rightarrow> u)
           in (case (case updates0 of JStr s \<Rightarrow> json_loads lib s | _ \<Rightarrow> Some updates0) of
                 None \<Rightarrow> (st, [])
               | Some updates \<Rightarrow>
                   (let new_state =
                          (case (current_state st, updates) of
                             (JObj cur, JObj upd) \<Rightarrow> JObj (dict_merge cur upd)
                           | _ \<Rightarrow> updates)
                    in (st\<lparr>current_state := new_state\<rparr>, [StateSnapshot new_state]))))
      | Some _ \<Rightarrow> (st, []))"

text \<open>The thinking part of \<^verbatim>\<open>content_block_stop\<close>, lines 704-717.\<close>

definition close_thinking_block :: "tstate \<Rightarrow> tstate \<times> event list" where
  "close_thinking_block st =
     (if in_thinking_block st then
        (let st1 = st\<lparr>in_thinking_block := False\<rparr>;
             st2 = (if accumulated_thinking_text st1 \<noteq> [] then
                      (upsert_message st1
                         (DeveloperMsg (Uuid (next_uuid st1)) (accumulated_thinking_text st1)))
                        \<lparr>next_uuid := Suc (next_uuid st1), accumulated_thinking_text := []\<rparr>
                    else st1)
         in (st2, [ThinkingTextMessageEnd, ThinkingEnd]))
      else (st, []))"

text \<open>
  The tool part of \<^verbatim>\<open>content_block_stop\<close>, lines 720-807, in its three steps.
  Lines 749-764: push the finished tool call onto the in-flight message, unless it is the
  state-management tool.
\<close>

definition attach_tool_call :: "tstate \<Rightarrow> string \<Rightarrow> bool \<Rightarrow> tstate" where
  "attach_tool_call st tid is_state_tool =
     (case pending_msg st of
        None \<Rightarrow> st
      | Some p \<Rightarrow>
          (case current_tool_display_name st of
             None \<Rightarrow> st
           | Some display \<Rightarrow>
               (if display \<noteq> [] \<and> \<not> is_state_tool then
                  st\<lparr>pending_msg := Some (p\<lparr>pending_tool_calls :=
                         pending_tool_calls p
                         @ [ToolCall tid display (accumulated_tool_json st)]\<rparr>)\<rparr>
                else st)))"

text \<open>Lines 770-798: the halt for a frontend tool.\<close>

definition frontend_halt :: "tstate \<Rightarrow> string \<Rightarrow> tstate \<times> event list" where
  "frontend_halt st tid =
     (let st1 = flush_pending_msg st;
          text_open = (current_message_id st1 \<noteq> None \<and> has_streamed_text st1);
          evs = [ToolCallEnd (Named tid)]
                @ (case current_message_id st1 of
                     None \<Rightarrow> []
                   | Some mid \<Rightarrow> (if has_streamed_text st1 then [TextMessageEnd mid] else []));
          st2 = (if text_open then st1\<lparr>current_message_id := None\<rparr> else st1)
      in (st2\<lparr>halt_event_stream := True\<rparr>, evs))"

text \<open>Lines 803-807: reset the tool streaming state of a backend tool.\<close>

definition reset_tool_state :: "tstate \<Rightarrow> tstate" where
  "reset_tool_state st =
     st\<lparr>current_tool_call_id := None,
        current_tool_call_name := None,
        current_tool_display_name := None,
        accumulated_tool_json := []\<rparr>"

definition close_tool_call :: "pylib \<Rightarrow> string set \<Rightarrow> tstate \<Rightarrow> tstate \<times> event list" where
  "close_tool_call lib frontend_tool_names st =
     (case current_tool_call_id st of
        None \<Rightarrow> (st, [])
      | Some tid \<Rightarrow>
          (if tid = [] then (st, [])
           else
             (let is_state_tool =
                    (case current_tool_call_name st of
                       None \<Rightarrow> False
                     | Some n \<Rightarrow> is_state_management_tool n);
                  (st1, evs1) = (if is_state_tool then intercept_state_update lib st else (st, []));
                  st2 = attach_tool_call st1 tid is_state_tool;
                  is_frontend_tool =
                    (case current_tool_display_name st2 of
                       None \<Rightarrow> False
                     | Some display \<Rightarrow> display \<in> frontend_tool_names)
              in if is_frontend_tool then
                   (let (st3, evs2) = frontend_halt st2 tid in (st3, evs1 @ evs2))
                 else (reset_tool_state st2, evs1))))"

definition on_content_block_stop :: "pylib \<Rightarrow> string set \<Rightarrow> tstate \<Rightarrow> tstate \<times> event list" where
  "on_content_block_stop lib frontend_tool_names st =
     (let (st1, evs1) = close_thinking_block st;
          (st2, evs2) = close_tool_call lib frontend_tool_names st1
      in (st2, evs1 @ evs2))"

text \<open>\<^verbatim>\<open>message_stop\<close>, lines 809-819.\<close>

definition on_message_stop :: "tstate \<Rightarrow> tstate \<times> event list" where
  "on_message_stop st =
     (let st1 = flush_pending_msg st;
          evs = (case current_message_id st1 of
                   None \<Rightarrow> []
                 | Some mid \<Rightarrow> (if has_streamed_text st1 then [TextMessageEnd mid] else []))
      in (st1\<lparr>current_message_id := None\<rparr>, evs))"

text \<open>The \<^verbatim>\<open>StreamEvent\<close> branch, lines 616-828.\<close>

definition on_stream_event :: "pylib \<Rightarrow> string set \<Rightarrow> tstate \<Rightarrow> stream_event \<Rightarrow> tstate \<times> event list" where
  "on_stream_event lib frontend_tool_names st ev =
     (case ev of
        MessageStart \<Rightarrow> on_message_start st
      | ContentBlockDelta d \<Rightarrow>
          (case d of
             TextDelta text_chunk \<Rightarrow> on_text_delta st text_chunk
           | ThinkingDelta thinking_chunk \<Rightarrow> on_thinking_delta st thinking_chunk
           | InputJsonDelta partial_json \<Rightarrow> on_input_json_delta st partial_json
           | OtherDelta \<Rightarrow> (st, []))
      | ContentBlockStart block \<Rightarrow> on_content_block_start st block
      | ContentBlockStop \<Rightarrow> on_content_block_stop lib frontend_tool_names st
      | MessageStop \<Rightarrow> on_message_stop st
      | MessageDelta \<Rightarrow> (st, [])
      | OtherStreamEvent \<Rightarrow> (st, []))"

subsection \<open>Complete messages (fallback path)\<close>

text \<open>
  The generator \<^verbatim>\<open>event_gen\<close> inside \<^verbatim>\<open>handle_tool_use_block\<close>, lines 72-124: the value
  of its \<^verbatim>\<open>nonlocal current_state\<close> when it finishes, and the events it yields.
\<close>

definition event_gen ::
  "pylib \<Rightarrow> string \<Rightarrow> (string \<times> json) list \<Rightarrow> ident \<Rightarrow> string \<Rightarrow> string option \<Rightarrow> json
     \<Rightarrow> json \<times> event list" where
  "event_gen lib tool_name tool_input tool_id tool_display_name parent_tool_use_id state =
     (if is_state_management_tool tool_name then
        (let state_updates0 = (case dict_get tool_input ''state_updates'' of
                                 None \<Rightarrow> JObj []
                               | Some u \<Rightarrow> u);
             state_updates = (case state_updates0 of
                                JStr s \<Rightarrow> (case json_loads lib s of Some v \<Rightarrow> v | None \<Rightarrow> JObj [])
                              | _ \<Rightarrow> state_updates0);
             new_state = (case (state, state_updates) of
                            (JObj cur, JObj upd) \<Rightarrow> JObj (dict_merge cur upd)
                          | _ \<Rightarrow> state_updates)
         in (new_state, [StateSnapshot new_state]))
      else
        (state,
         ToolCallStart tool_id tool_display_name (map_option Named parent_tool_use_id)
         # (if tool_input \<noteq> [] then [ToolCallArgs tool_id (json_dumps lib (JObj tool_input))]
            else [])))"

text \<open>
  \<^verbatim>\<open>handle_tool_use_block\<close>, lines 60-126. It returns \<^verbatim>\<open>current_state\<close> as it is at
  the \<^verbatim>\<open>return\<close> statement, when the generator has not run yet, together with the
  generator; the third component is the uuid counter.
\<close>

definition handle_tool_use_block ::
  "pylib \<Rightarrow> string \<Rightarrow> string \<Rightarrow> (string \<times> json) list \<Rightarrow> string option \<Rightarrow> json \<Rightarrow> nat
     \<Rightarrow> json \<times> event list \<times> nat" where
  "handle_tool_use_block lib blk_id blk_name blk_input parent_tool_use_id state uuid =
     (let tool_name = (if blk_name \<noteq> [] then blk_name else ''unknown'');
          (tool_id, uuid') = (if blk_id \<noteq> [] then (Named blk_id, uuid) else (Uuid uuid, Suc uuid));
          tool_display_name = strip_mcp_prefix tool_name
      in (state,
          snd (event_gen lib tool_name blk_input tool_id tool_display_name parent_tool_use_id state),
          uuid'))"

text \<open>\<^verbatim>\<open>handle_tool_result_block\<close>, lines 151-203.\<close>

definition handle_tool_result_block :: "pylib \<Rightarrow> string \<Rightarrow> json \<Rightarrow> event list" where
  "handle_tool_result_block lib tool_use_id content =
     (if tool_use_id \<noteq> [] then
        [ToolCallEnd (Named tool_use_id),
         ToolCallResult (Named (tool_use_id @ ''-result'')) (Named tool_use_id)
           (result_string lib content)]
      else [])"

text \<open>One iteration of the loop over the blocks of a complete message, lines 842-868.\<close>

definition process_block :: "pylib \<Rightarrow> string option \<Rightarrow> tstate \<Rightarrow> content_block \<Rightarrow> tstate \<times> event list" where
  "process_block lib parent st block =
     (case block of
        ToolUseBlock ty tool_id name inp \<Rightarrow>
          (if tool_id \<noteq> [] \<and> tool_id \<in> processed_tool_ids st then (st, [])
           else
             (let raw_name = (if name \<noteq> [] then name else ''unknown'');
                  st1 = (if tool_id \<noteq> [] then
                           st\<lparr>tool_name_by_id := (tool_name_by_id st)(tool_id \<mapsto> strip_mcp_prefix raw_name)\<rparr>
                         else st);
                  (updated_state, tool_events, uuid') =
                     handle_tool_use_block lib tool_id name inp parent (current_state st1) (next_uuid st1);
                  st2 = st1\<lparr>next_uuid := uuid'\<rparr>;
                  st3 = (if tool_id \<noteq> [] then
                           st2\<lparr>processed_tool_ids := insert tool_id (processed_tool_ids st2)\<rparr>
                         else st2);
                  st4 = (if updated_state \<noteq> JNull then st3\<lparr>current_state := updated_state\<rparr> else st3)
              in (st4, tool_events)))
      | ToolResultBlock ty tool_use_id content err \<Rightarrow>
          (let st1 = (if tool_use_id \<noteq> [] then
                        upsert_message st (build_agui_tool_message lib tool_use_id content)
                      else st)
           in (st1, handle_tool_result_block lib tool_use_id content))
      | _ \<Rightarrow> (st, []))"

fun process_blocks :: "pylib \<Rightarrow> string option \<Rightarrow> tstate \<Rightarrow> content_block list \<Rightarrow> tstate \<times> event list" where
  "process_blocks lib parent st [] = (st, [])"
| "process_blocks lib parent st (block # blocks) =
     (let (st1, evs1) = process_block lib parent st block;
          (st2, evs2) = process_blocks lib parent st1 blocks
      in (st2, evs1 @ evs2))"

text \<open>\<^verbatim>\<open>AssistantMessage\<close>, lines 835-868.\<close>

definition on_assistant_message ::
  "pylib \<Rightarrow> tstate \<Rightarrow> content_block list \<Rightarrow> string option \<Rightarrow> tstate \<times> event list" where
  "on_assistant_message lib st content parent =
     (let (msg_id, uuid') = (case current_message_id st of
                               Some mid \<Rightarrow> (mid, next_uuid st)
                             | None \<Rightarrow> (Uuid (next_uuid st), Suc (next_uuid st)));
          st1 = st\<lparr>next_uuid := uuid'\<rparr>;
          st2 = (case build_agui_assistant_message lib content msg_id of
                   None \<Rightarrow> st1
                 | Some agui_msg \<Rightarrow> upsert_message st1 agui_msg)
      in process_blocks lib parent st2 content)"

text \<open>
  \<^verbatim>\<open>UserMessage\<close>, lines 842-868. Iterating over string content visits its characters,
  none of which is a tool block.
\<close>

definition on_user_message ::
  "pylib \<Rightarrow> tstate \<Rightarrow> message_content \<Rightarrow> string option \<Rightarrow> tstate \<times> event list" where
  "on_user_message lib st content parent =
     process_blocks lib parent st (case content of ContentStr s \<Rightarrow> [] | ContentBlocks blocks \<Rightarrow> blocks)"

text \<open>\<^verbatim>\<open>x or d\<close> on an optional string.\<close>

fun str_or :: "string option \<Rightarrow> string \<Rightarrow> string" where
  "str_or None d = d"
| "str_or (Some s) d = (if s \<noteq> [] then s else d)"

text \<open>\<^verbatim>\<open>emit_system_message_events\<close>, handlers.py lines 274-296, with the uuid it draws.\<close>

definition emit_system_message_events :: "nat \<Rightarrow> string \<Rightarrow> event list" where
  "emit_system_message_events uuid message =
     [TextMessageStart (Uuid uuid) ''system'',
      TextMessageContent (Uuid uuid) message,
      TextMessageEnd (Uuid uuid)]"

text \<open>\<^verbatim>\<open>SystemMessage\<close>, lines 870-886.\<close>

definition on_system_message :: "tstate \<Rightarrow> string \<Rightarrow> system_data option \<Rightarrow> tstate \<times> event list" where
  "on_system_message st subtype data =
     (let msg_text = (case data of
                        None \<Rightarrow> []
                      | Some d \<Rightarrow> str_or (data_message d) (str_or (data_text d) []))
      in if msg_text \<noteq> [] then
           (let sys_msg_id = Uuid (next_uuid st);
                evs = emit_system_message_events (Suc (next_uuid st)) msg_text
            in (upsert_message (st\<lparr>next_uuid := Suc (Suc (next_uuid st))\<rparr>) (SystemMsg sys_msg_id msg_text),
                evs))
         else (st, []))"

text \<open>\<^verbatim>\<open>ResultMessage\<close>, lines 888-913.\<close>

definition on_result_message :: "tstate \<Rightarrow> string option \<Rightarrow> result_data \<Rightarrow> tstate \<times> event list" where
  "on_result_message st result_text data =
     (let st1 = st\<lparr>last_result_data := Some data\<rparr>
      in (case result_text of
            None \<Rightarrow> (st1, [])
          | Some text \<Rightarrow>
              (if \<not> has_streamed_text st1 \<and> text \<noteq> [] then
                 (let result_msg_id = Uuid (next_uuid st1)
                  in (upsert_message (st1\<lparr>next_uuid := Suc (next_uuid st1)\<rparr>)
                        (AssistantMsg result_msg_id (Some text) None),
                      [TextMessageStart result_msg_id ''assistant'',
                       TextMessageContent result_msg_id text,
                       TextMessageEnd result_msg_id]))
               else (st1, []))))"

subsection \<open>The translation loop, cleanup and final emission\<close>

text \<open>The loop body after the halt check, lines 613-913.\<close>

definition process_message :: "pylib \<Rightarrow> string set \<Rightarrow> tstate \<Rightarrow> sdk_message \<Rightarrow> tstate \<times> event list" where
  "process_message lib frontend_tool_names st message =
     (case message of
        StreamEvent ev \<Rightarrow> on_stream_event lib frontend_tool_names st ev
      | AssistantMessage content parent \<Rightarrow> on_assistant_message lib st content parent
      | UserMessage content parent \<Rightarrow> on_user_message lib st content parent
      | SystemMessage subtype data \<Rightarrow> on_system_message st subtype data
      | ResultMessage result_text data \<Rightarrow> on_result_message st result_text data
      | OtherMessage \<Rightarrow> (st, []))"

text \<open>
  \<^verbatim>\<open>async for message in message_stream\<close>, lines 605-913, over the messages the stream
  yields. The third component tells whether the loop was left by \<^verbatim>\<open>break\<close>; if not, the
  stream was read to its end.
\<close>

fun stream_loop :: "pylib \<Rightarrow> string set \<Rightarrow> tstate \<Rightarrow> sdk_message list \<Rightarrow> tstate \<times> event list \<times> bool" where
  "stream_loop lib frontend_tool_names st [] = (st, [], False)"
| "stream_loop lib frontend_tool_names st (message # messages) =
     (let st1 = st\<lparr>message_count := message_count st + 1\<rparr>
      in if halt_event_stream st1 then (st1, [], True)
         else
           (let (st2, evs) = process_message lib frontend_tool_names st1 message;
                (st3, evs', broke) = stream_loop lib frontend_tool_names st2 messages
            in (st3, evs @ evs', broke)))"

text \<open>The \<^verbatim>\<open>finally\<close> block, lines 920-952.\<close>

definition cleanup :: "tstate \<Rightarrow> tstate \<times> event list" where
  "cleanup st =
     (let (st1, evs1) =
            (case current_tool_call_id st of
               None \<Rightarrow> (st, [])
             | Some tid \<Rightarrow>
                 (if tid \<noteq> [] then (st\<lparr>current_tool_call_id := None\<rparr>, [ToolCallEnd (Named tid)])
                  else (st, [])));
          (st2, evs2) =
            (if in_thinking_block st1 then
               (st1\<lparr>in_thinking_block := False\<rparr>, [ThinkingTextMessageEnd, ThinkingEnd])
             else (st1, []));
          evs3 =
            (case current_message_id st2 of
               None \<Rightarrow> []
             | Some mid \<Rightarrow> (if has_streamed_text st2 then [TextMessageEnd mid] else []))
      in (flush_pending_msg st2, evs1 @ evs2 @ evs3))"

text \<open>The enrichment of tool messages and the snapshot, lines 957-985.\<close>

definition enrich :: "(string \<rightharpoonup> string) \<Rightarrow> agui_message \<Rightarrow> snapshot_message" where
  "enrich names msg =
     (case msg of
        ToolMsg i content tcid \<Rightarrow>
          (if tcid \<noteq> [] then
             (case names tcid of
                Some name \<Rightarrow> NamedToolMessage i content tcid name
              | None \<Rightarrow> RunMessage msg)
           else RunMessage msg)
      | _ \<Rightarrow> RunMessage msg)"

definition messages_snapshot :: "input_message list \<Rightarrow> tstate \<Rightarrow> event list" where
  "messages_snapshot input_messages st =
     (if run_messages st \<noteq> [] then
        [MessagesSnapshot (map InputMessage input_messages
                           @ map (enrich (tool_name_by_id st)) (run_messages st))]
      else [])"

text \<open>
  \<^verbatim>\<open>_stream_claude_sdk\<close>, lines 520-989. The message stream is the list of messages it
  yields and how it ends: \<open>None\<close> when it is exhausted, \<open>Some e\<close> when it raises \<open>e\<close>.
  The result is the events yielded, the exception re-raised at the end (if any) and the
  final state.
\<close>

definition stream_claude_sdk ::
  "pylib \<Rightarrow> string set \<Rightarrow> input_message list \<Rightarrow> tstate \<Rightarrow> sdk_message list \<Rightarrow> py_exception option
     \<Rightarrow> event list \<times> py_exception option \<times> tstate" where
  "stream_claude_sdk lib frontend_tool_names input_messages st0 messages raises =
     (let (st1, evs, broke) = stream_loop lib frontend_tool_names st0 messages;
          stream_error = (if broke then None else raises);
          (st2, cleanup_evs) = cleanup st1
      in (evs @ cleanup_evs @ messages_snapshot input_messages st2, stream_error, st2))"

text \<open>
  \<^verbatim>\<open>ClaudeAgentAdapter.run\<close>, lines 244-352; \<open>uuid0\<close> is the uuid counter at the call.
  \<open>resolve_ids\<close> is lines 244-245 (\<^verbatim>\<open>input_data.thread_id or str(uuid.uuid4())\<close>, likewise
  for the run id) and \<open>frontend_tool_names_of\<close> is line 282.
\<close>

definition resolve_ids :: "run_agent_input \<Rightarrow> nat \<Rightarrow> ident \<times> ident \<times> nat" where
  "resolve_ids input_data uuid0 =
     (let (thread_id, uuid1) =
            (if inp_thread_id input_data \<noteq> [] then (Named (inp_thread_id input_data), uuid0)
             else (Uuid uuid0, Suc uuid0));
          (run_id, uuid2) =
            (if inp_run_id input_data \<noteq> [] then (Named (inp_run_id input_data), uuid1)
             else (Uuid uuid1, Suc uuid1))
      in (thread_id, run_id, uuid2))"

definition frontend_tool_names_of :: "run_agent_input \<Rightarrow> string set" where
  "frontend_tool_names_of input_data =
     (if inp_tools input_data \<noteq> [] then set (extract_tool_names (inp_tools input_data)) else {})"

definition run ::
  "pylib \<Rightarrow> run_agent_input \<Rightarrow> sdk_message list \<Rightarrow> py_exception option \<Rightarrow> nat \<Rightarrow> event list" where
  "run lib input_data messages raises uuid0 =
     (let (thread_id, run_id, uuid2) = resolve_ids input_data uuid0;
          started = RunStarted thread_id run_id input_data;
          (user_message, has_pending_tool_result) = process_messages input_data;
          frontend_tool_names = frontend_tool_names_of input_data
      in if user_message = [] then [started, RunFinished thread_id run_id None]
         else
           (let initial = (if truthy (inp_state input_data) then [StateSnapshot (inp_state input_data)] else []);
                (evs, stream_error, st) =
                   stream_claude_sdk lib frontend_tool_names (inp_messages input_data)
                     (init_tstate (inp_state input_data) uuid2) messages raises
            in started # initial @ evs
               @ (case stream_error of
                    None \<Rightarrow> [RunFinished thread_id run_id (last_result_data st)]
                  | Some e \<Rightarrow> [RunError thread_id run_id (exc_str e)])))"

section \<open>Classes of events\<close>

fun is_state_snapshot :: "event \<Rightarrow> bool" where
  "is_state_snapshot (StateSnapshot s) = True"
| "is_state_snapshot e = False"

fun is_tool_call_result :: "event \<Rightarrow> bool" where
  "is_tool_call_result (ToolCallResult mid tcid c) = True"
| "is_tool_call_result e = False"

text \<open>The four events of a tool-call lifecycle.\<close>

fun is_tool_call_event :: "event \<Rightarrow> bool" where
  "is_tool_call_event (ToolCallStart tcid name parent) = True"
| "is_tool_call_event (ToolCallArgs tcid d) = True"
| "is_tool_call_event (ToolCallEnd tcid) = True"
| "is_tool_call_event (ToolCallResult mid tcid c) = True"
| "is_tool_call_event e = False"

text \<open>Events that close something or report the messages; every other event carries content.\<close>

fun is_end_or_snapshot :: "event \<Rightarrow> bool" where
  "is_end_or_snapshot (TextMessageEnd mid) = True"
| "is_end_or_snapshot (ToolCallEnd tcid) = True"
| "is_end_or_snapshot (MessagesSnapshot msgs) = True"
| "is_end_or_snapshot e = False"

text \<open>The run lifecycle events, which only \<^verbatim>\<open>run\<close> emits.\<close>

fun is_run_event :: "event \<Rightarrow> bool" where
  "is_run_event (RunStarted t r i) = True"
| "is_run_event (RunFinished t r res) = True"
| "is_run_event (RunError t r msg) = True"
| "is_run_event e = False"

text \<open>The text-message events of one message.\<close>

fun is_text_event_of :: "ident \<Rightarrow> event \<Rightarrow> bool" where
  "is_text_event_of m (TextMessageStart mid role) = (mid = m)"
| "is_text_event_of m (TextMessageContent mid d) = (mid = m)"
| "is_text_event_of m (TextMessageEnd mid) = (mid = m)"
| "is_text_event_of m e = False"

text \<open>The message id of a text-message event, and whether an id is a uuid drawn in a given range.\<close>

fun text_event_id :: "event \<Rightarrow> ident option" where
  "text_event_id (TextMessageStart mid role) = Some mid"
| "text_event_id (TextMessageContent mid d) = Some mid"
| "text_event_id (TextMessageEnd mid) = Some mid"
| "text_event_id e = None"

fun uuid_between :: "nat \<Rightarrow> nat \<Rightarrow> ident option \<Rightarrow> bool" where
  "uuid_between lo hi (Some (Uuid k)) = (lo \<le> k \<and> k < hi)"
| "uuid_between lo hi i = False"

section \<open>Sample inputs\<close>

text \<open>
  An instance of the library parameters for concrete runs: \<^verbatim>\<open>json.loads\<close> on the few
  payloads the examples use (every other string counts as malformed), and fixed renderings.
\<close>

definition example_lib :: pylib where
  \<open>example_lib =
     \<lparr> json_loads = (\<lambda>s. if s = ''{"count": 2}'' then Some (JObj [(''count'', JNum 2)])
                         else if s = ''{"state_updates": {"count": 2}}''
                              then Some (JObj [(''state_updates'', JObj [(''count'', JNum 2)])])
                         else if s = ''{}'' then Some (JObj [])
                         else None),
       json_dumps = (\<lambda>j. ''<json>''),
       py_str = (\<lambda>j. ''<str>'') \<rparr>\<close>

definition example_input :: run_agent_input where
  "example_input =
     \<lparr>inp_thread_id = ''t-1'', inp_run_id = ''r-1'', inp_parent_run_id = None,
      inp_messages = [\<lparr>in_id = ''u-1'', in_role = ''user'', in_content = InText ''hi''\<rparr>],
      inp_tools = [], inp_state = JNull, inp_context = [], inp_forwarded_props = JNull\<rparr>"

text \<open>A stream in which the model calls the frontend tool \<^verbatim>\<open>confirm\<close>.\<close>

definition example_frontend_stream :: "sdk_message list" where
  "example_frontend_stream =
     [StreamEvent MessageStart,
      StreamEvent (ContentBlockStart (ToolUseStartBlock (Some ''t1'') (Some ''mcp__ag_ui__confirm''))),
      StreamEvent (ContentBlockDelta (InputJsonDelta ''{}'')),
      StreamEvent ContentBlockStop]"

text \<open>
  The state reached when the state-management tool has been opened on the chunked path and
  its arguments have arrived, with shared state \<^verbatim>\<open>{"count": 1, "title": "draft"}\<close>.
\<close>

definition example_state_tool_open :: "string \<Rightarrow> tstate" where
  "example_state_tool_open args =
     fst (stream_loop example_lib {}
            (init_tstate (JObj [(''count'', JNum 1), (''title'', JStr ''draft'')]) 0)
            [StreamEvent (ContentBlockStart
               (ToolUseStartBlock (Some ''t1'') (Some ''mcp__ag_ui__ag_ui_update_state''))),
             StreamEvent (ContentBlockDelta (InputJsonDelta args))])"

text \<open>A stream cut off in the middle of a tool call, after some text.\<close>

definition example_interrupted_stream :: "sdk_message list" where
  "example_interrupted_stream =
     [StreamEvent MessageStart,
      StreamEvent (ContentBlockDelta (TextDelta ''Hi'')),
      StreamEvent (ContentBlockStart (ToolUseStartBlock (Some ''b'') (Some ''Read''))),
      StreamEvent (ContentBlockDelta (InputJsonDelta ''{''))]"

text \<open>A turn whose response stream raises after the first text chunk.\<close>

definition example_failing_turn :: vendor_turn where
  "example_failing_turn =
     \<lparr>query_raises = None,
      response = [StreamEvent MessageStart, StreamEvent (ContentBlockDelta (TextDelta ''Hi''))],
      response_raises = Some (PyException ''RuntimeError'' ''boom'')\<rparr>"

text \<open>The same input with the frontend tool \<^verbatim>\<open>confirm\<close> declared.\<close>

definition example_frontend_input :: run_agent_input where
  "example_frontend_input =
     example_input\<lparr>inp_tools :=
       [\<lparr>tool_def_name = ''confirm'', tool_def_description = ''Ask the user'',
         tool_def_parameters = JObj []\<rparr>]\<rparr>"

text \<open>
  A turn in which the model calls the frontend tool and ends its message, and whose response
  stream raises after that.
\<close>

definition example_halted_failing_turn :: vendor_turn where
  "example_halted_failing_turn =
     \<lparr>query_raises = None,
      response = example_frontend_stream @ [StreamEvent MessageStop],
      response_raises = Some (PyException ''RuntimeError'' ''boom'')\<rparr>"


section \<open>Properties of the session worker\<close>

lemma receive_response_queue:
  "snd (receive_response w q msgs) = q @ map Item msgs"
  by (induction msgs arbitrary: w q) (simp_all add: put_def)

lemma run_turn_queue:
  "snd (run_turn w t) =
     map Item (forwarded t)
     @ (case turn_exception t of None \<Rightarrow> [] | Some e \<Rightarrow> [WorkerError e])
     @ [Sentinel]"
proof (cases "query_raises t")
  case (Some e)
  then show ?thesis
    by (simp add: run_turn_def forwarded_def turn_exception_def put_def)
next
  case None
  have "snd (receive_response w [] (response t)) = map Item (response t)"
    by (simp add: receive_response_queue)
  with None show ?thesis
    by (cases "receive_response w [] (response t)"; cases "response_raises t")
       (simp_all add: run_turn_def forwarded_def turn_exception_def put_def)
qed


text \<open>
  Claim C3. Every turn that the worker loop dequeues before a shutdown item gets an output
  queue that holds the forwarded vendor messages in stream order, then a single
  \<open>WorkerError\<close> wrapping the exception if \<^verbatim>\<open>client.query\<close> or the iteration of the response
  raised, and then the \<^verbatim>\<open>None\<close> marker as its last item; nothing follows the marker and
  no other marker is enqueued.
\<close>

theorem worker_loop_output_queues:
  "snd (worker_loop w items) =
     map (\<lambda>t. map Item (forwarded t)
               @ (case turn_exception t of None \<Rightarrow> [] | Some e \<Rightarrow> [WorkerError e])
               @ [Sentinel])
         (served items)"
proof (induction w items rule: worker_loop.induct)
  case (1 w)
  show ?case by simp
next
  case (2 w items)
  show ?case by simp
next
  case (3 w prompt sid t items)
  obtain w1 q where rt: "run_turn w t = (w1, q)"
    by (cases "run_turn w t")
  obtain w2 qs where wl: "worker_loop w1 items = (w2, qs)"
    by (cases "worker_loop w1 items")
  from rt have q: "q = map Item (forwarded t)
      @ (case turn_exception t of None \<Rightarrow> [] | Some e \<Rightarrow> [WorkerError e]) @ [Sentinel]"
    using run_turn_queue [of w t] by simp
  from "3.IH" [of "(w1, q)" w1 q] rt wl
  have "qs = map (\<lambda>t. map Item (forwarded t)
               @ (case turn_exception t of None \<Rightarrow> [] | Some e \<Rightarrow> [WorkerError e])
               @ [Sentinel]) (served items)"
    by simp
  with rt wl q show ?case by simp
qed

lemma process_messages_no_messages:
  "inp_messages input_data = [] \<Longrightarrow> fst (process_messages input_data) = []"
  by (simp add: process_messages_def)

lemma process_messages_empty_content:
  "inp_messages input_data \<noteq> [] \<Longrightarrow> in_content (last (inp_messages input_data)) = InText [] \<Longrightarrow>
   fst (process_messages input_data) = []"
  by (simp add: process_messages_def)

text \<open>
  Claim C10. When \<^verbatim>\<open>process_messages\<close> extracts no user message text, \<^verbatim>\<open>run\<close> emits the
  run-started event and then a run-finished event without result data, and nothing else:
  no state snapshot (whatever the initial state) and no run-error.
\<close>

theorem run_without_user_message:
  assumes "fst (process_messages input_data) = []"
  shows "run lib input_data messages raises uuid0 =
           (let thread_id = fst (resolve_ids input_data uuid0);
                run_id = fst (snd (resolve_ids input_data uuid0))
            in [RunStarted thread_id run_id input_data, RunFinished thread_id run_id None])"
proof -
  obtain um pend where pm: "process_messages input_data = (um, pend)"
    by (cases "process_messages input_data")
  with assms have "um = []" by simp
  with pm show ?thesis
    by (simp add: run_def Let_def split: prod.splits)
qed

theorem run_without_user_message_witness:
  "fst (process_messages (example_input\<lparr>inp_messages := [], inp_state := JObj [(''count'', JNum 1)]\<rparr>)) = []
   \<and> run example_lib (example_input\<lparr>inp_messages := [], inp_state := JObj [(''count'', JNum 1)]\<rparr>)
        [StreamEvent MessageStart] None 0 =
      [RunStarted (Named ''t-1'') (Named ''r-1'')
         (example_input\<lparr>inp_messages := [], inp_state := JObj [(''count'', JNum 1)]\<rparr>),
       RunFinished (Named ''t-1'') (Named ''r-1'') None]"
proof -
  let ?inp = "example_input\<lparr>inp_messages := [], inp_state := JObj [(''count'', JNum 1)]\<rparr>"
  have h: "fst (process_messages ?inp) = []"
    by (simp add: process_messages_def)
  from run_without_user_message [OF h, of example_lib "[StreamEvent MessageStart]" None 0] h
  show ?thesis by (simp add: Let_def example_input_def resolve_ids_def)
qed


section \<open>Dictionaries and the translation loop\<close>

lemma dict_get_dict_set: "dict_get (dict_set d k v) k' = (if k' = k then Some v else dict_get d k')"
  by (induction d) (auto simp: dict_get_def)

lemma dict_get_Nil: "dict_get [] k = None"
  by (simp add: dict_get_def)

lemma dict_get_Cons: "dict_get ((k', v') # d) k = (if k = k' then Some v' else dict_get d k)"
  by (simp add: dict_get_def)

lemma dict_get_dict_merge:
  "distinct (map fst b) \<Longrightarrow>
   dict_get (dict_merge a b) k = (case dict_get b k of Some v \<Rightarrow> Some v | None \<Rightarrow> dict_get a k)"
proof (induction b arbitrary: a)
  case Nil
  then show ?case by (simp add: dict_get_Nil)
next
  case (Cons kv b)
  obtain k' v' where kv: "kv = (k', v')" by (cases kv)
  from Cons.prems kv have d: "distinct (map fst b)" and nk: "k' \<notin> fst ` set b" by auto
  from nk have nb: "dict_get b k' = None"
    by (simp add: dict_get_def map_of_eq_None_iff)
  from Cons.IH [OF d, of "dict_set a k' v'"]
  have ih: "dict_get (dict_merge (dict_set a k' v') b) k =
      (case dict_get b k of Some v \<Rightarrow> Some v | None \<Rightarrow> dict_get (dict_set a k' v') k)" .
  show ?case
  proof (cases "k = k'")
    case True
    with kv nb ih show ?thesis
      by (simp add: dict_get_dict_set dict_get_Cons split: option.splits)
  next
    case False
    with kv ih show ?thesis
      by (simp add: dict_get_dict_set dict_get_Cons split: option.splits)
  qed
qed

lemma stream_loop_halted:
  "halt_event_stream st \<Longrightarrow>
   stream_loop lib fts st msgs =
     (if msgs = [] then (st, [], False) else (st\<lparr>message_count := message_count st + 1\<rparr>, [], True))"
  by (cases msgs) simp_all

lemma stream_loop_append:
  "stream_loop lib fts st xs = (st1, evs1, b1) \<Longrightarrow>
   stream_loop lib fts st (xs @ ys) =
     (if b1 then (st1, evs1, True)
      else (case stream_loop lib fts st1 ys of (st2, evs2, b2) \<Rightarrow> (st2, evs1 @ evs2, b2)))"
proof (induction xs arbitrary: st st1 evs1 b1)
  case Nil
  then show ?case by (auto split: prod.splits)
next
  case (Cons x xs)
  let ?s = "st\<lparr>message_count := message_count st + 1\<rparr>"
  show ?case
  proof (cases "halt_event_stream st")
    case True
    with Cons.prems show ?thesis by auto
  next
    case False
    obtain s2 e2 where pm: "process_message lib fts ?s x = (s2, e2)"
      by (cases "process_message lib fts ?s x")
    obtain s3 e3 b3 where sl: "stream_loop lib fts s2 xs = (s3, e3, b3)"
      by (cases "stream_loop lib fts s2 xs") auto
    from Cons.prems False pm sl have eq: "st1 = s3" "evs1 = e2 @ e3" "b1 = b3"
      by auto
    from Cons.IH [OF sl, of ] have "stream_loop lib fts s2 (xs @ ys) =
       (if b3 then (s3, e3, True)
        else (case stream_loop lib fts s3 ys of (st2, evs2, b2) \<Rightarrow> (st2, e3 @ evs2, b2)))" .
    with False pm eq show ?thesis
      by (auto split: prod.splits)
  qed
qed


lemma close_thinking_block_frame:
  assumes "close_thinking_block st = (st', evs)"
  shows "current_tool_call_id st' = current_tool_call_id st"
    and "current_tool_call_name st' = current_tool_call_name st"
    and "current_tool_display_name st' = current_tool_display_name st"
    and "accumulated_tool_json st' = accumulated_tool_json st"
    and "current_state st' = current_state st"
    and "pending_msg st' = pending_msg st"
    and "current_message_id st' = current_message_id st"
    and "has_streamed_text st' = has_streamed_text st"
    and "halt_event_stream st' = halt_event_stream st"
    and "in_thinking_block st' = False"
    and "evs = (if in_thinking_block st then [ThinkingTextMessageEnd, ThinkingEnd] else [])"
  using assms
  by (auto simp: close_thinking_block_def upsert_message_def Let_def split: if_splits)

lemma intercept_state_update_merge:
  assumes "json_loads lib (accumulated_tool_json st) = Some (JObj payload)"
    and "(dict_get payload ''state_updates'' = None \<and> upd = payload)
         \<or> dict_get payload ''state_updates'' = Some (JObj upd)
         \<or> (\<exists>s. dict_get payload ''state_updates'' = Some (JStr s) \<and> json_loads lib s = Some (JObj upd))"
    and "current_state st = JObj cur"
  shows "intercept_state_update lib st =
           (st\<lparr>current_state := JObj (dict_merge cur upd)\<rparr>, [StateSnapshot (JObj (dict_merge cur upd))])"
  using assms
  by (auto simp: intercept_state_update_def Let_def)

lemma intercept_state_update_malformed:
  assumes "json_loads lib (accumulated_tool_json st) = None
           \<or> (\<exists>payload s. json_loads lib (accumulated_tool_json st) = Some (JObj payload)
                \<and> dict_get payload ''state_updates'' = Some (JStr s) \<and> json_loads lib s = None)"
  shows "intercept_state_update lib st = (st, [])"
  using assms
  by (auto simp: intercept_state_update_def Let_def)

lemma close_tool_call_state_tool:
  assumes "current_tool_call_id st = Some tid" and "tid \<noteq> []"
    and "current_tool_call_name st = Some name" and "is_state_management_tool name"
    and "intercept_state_update lib st = (st1, evs1)"
    and "current_state st1 = s1"
    and "close_tool_call lib fts st = (st', evs)"
  shows "current_state st' = s1
         \<and> filter is_state_snapshot evs = filter is_state_snapshot evs1
         \<and> filter is_tool_call_result evs = filter is_tool_call_result evs1"
  using assms
  by (auto simp: close_tool_call_def attach_tool_call_def frontend_halt_def reset_tool_state_def
                 Let_def flush_pending_msg_def upsert_message_def
           split: option.splits if_splits)


lemmas translator_defs =
  process_message_def on_stream_event_def on_message_start_def on_text_delta_def
  on_thinking_delta_def on_input_json_delta_def on_content_block_start_def
  on_content_block_stop_def close_thinking_block_def close_tool_call_def attach_tool_call_def
  frontend_halt_def reset_tool_state_def
  intercept_state_update_def on_message_stop_def flush_pending_msg_def upsert_message_def
  on_assistant_message_def on_user_message_def on_system_message_def on_result_message_def
  process_block_def handle_tool_use_block_def handle_tool_result_block_def event_gen_def
  build_agui_assistant_message_def build_agui_tool_message_def result_string_def
  emit_system_message_events_def cleanup_def messages_snapshot_def enrich_def
  stream_claude_sdk_def init_tstate_def strip_mcp_prefix_def is_state_management_tool_def
  run_def resolve_ids_def frontend_tool_names_of_def process_messages_def extract_tool_names_def
  STATE_MANAGEMENT_TOOL_NAME_def STATE_MANAGEMENT_TOOL_FULL_NAME_def
  text_attr_def name_attr_def id_attr_def input_attr_def dict_get_def Let_def

lemma process_blocks_message_count:
  "process_blocks lib parent st blocks = (st', evs) \<Longrightarrow> message_count st' = message_count st"
proof (induction blocks arbitrary: st st' evs)
  case Nil
  then show ?case by simp
next
  case (Cons b bs)
  obtain s1 e1 where pb: "process_block lib parent st b = (s1, e1)"
    by (cases "process_block lib parent st b")
  obtain s2 e2 where ps: "process_blocks lib parent s1 bs = (s2, e2)"
    by (cases "process_blocks lib parent s1 bs")
  from pb have "message_count s1 = message_count st"
    by (auto simp: process_block_def handle_tool_use_block_def upsert_message_def Let_def
             split: content_block.splits if_splits prod.splits)
  moreover from Cons.IH [OF ps] have "message_count s2 = message_count s1" .
  moreover from Cons.prems pb ps have "st' = s2" by simp
  ultimately show ?case by simp
qed


lemma flush_pending_msg_message_count: "message_count (flush_pending_msg st) = message_count st"
  by (simp add: flush_pending_msg_def upsert_message_def Let_def split: option.splits)

lemma intercept_state_update_message_count:
  "intercept_state_update lib st = (st', evs) \<Longrightarrow> message_count st' = message_count st"
  by (auto simp: intercept_state_update_def Let_def split: option.splits json.splits)

lemma close_tool_call_message_count:
  "close_tool_call lib fts st = (st', evs) \<Longrightarrow> message_count st' = message_count st"
  by (auto simp: close_tool_call_def attach_tool_call_def frontend_halt_def reset_tool_state_def
                 Let_def flush_pending_msg_message_count
           dest!: intercept_state_update_message_count
           split: option.splits if_splits prod.splits)

lemma on_stream_event_message_count:
  "on_stream_event lib fts st ev = (st', evs) \<Longrightarrow> message_count st' = message_count st"
  by (cases ev)
     (auto simp: on_stream_event_def on_message_start_def on_text_delta_def
        on_thinking_delta_def on_input_json_delta_def on_content_block_start_def
        on_content_block_stop_def close_thinking_block_def upsert_message_def
        on_message_stop_def flush_pending_msg_message_count Let_def
        dest!: close_tool_call_message_count
        split: delta.splits block_start.splits option.splits if_splits prod.splits)

lemma process_message_message_count:
  "process_message lib fts st m = (st', evs) \<Longrightarrow> message_count st' = message_count st"
  by (cases m)
     (auto simp: process_message_def 
        on_assistant_message_def on_user_message_def on_system_message_def on_result_message_def
        upsert_message_def Let_def
        dest!: process_blocks_message_count on_stream_event_message_count
        split: option.splits if_splits prod.splits)


lemma stream_loop_message_count:
  "stream_loop lib fts st0 msgs = (st, evs, False) \<Longrightarrow>
   message_count st = message_count st0 + length msgs"
proof (induction msgs arbitrary: st0 st evs)
  case Nil
  then show ?case by simp
next
  case (Cons m ms)
  let ?s = "st0\<lparr>message_count := message_count st0 + 1\<rparr>"
  from Cons.prems have nh: "\<not> halt_event_stream st0"
    by (auto split: if_splits)
  obtain s2 e2 where pm: "process_message lib fts ?s m = (s2, e2)"
    by (cases "process_message lib fts ?s m")
  obtain s3 e3 b3 where sl: "stream_loop lib fts s2 ms = (s3, e3, b3)"
    by (cases "stream_loop lib fts s2 ms") auto
  from Cons.prems nh pm sl have eq: "st = s3" "b3 = False" by auto
  from process_message_message_count [OF pm] have "message_count s2 = message_count st0 + 1"
    by simp
  moreover from Cons.IH [of s2 s3 e3] sl eq have "message_count s3 = message_count s2 + length ms"
    by simp
  ultimately show ?case using eq by simp
qed

section \<open>Halt semantics\<close>

text \<open>
  Claim C6, as amended. Once the halted flag is set, the loop does not drain the stream:
  it reads at most one further vendor item, emits no event for it and leaves the loop by
  \<^verbatim>\<open>break\<close>; the items after that one are never read. (\<open>message_count\<close> counts
  the items read.)
\<close>

theorem halted_loop_reads_one_more_item:
  assumes "stream_loop lib fts st0 pre = (st1, evs1, False)" and "halt_event_stream st1"
  shows "stream_loop lib fts st0 (pre @ rest) =
           (if rest = [] then (st1, evs1, False)
            else (st1\<lparr>message_count := message_count st0 + length pre + 1\<rparr>, evs1, True))"
proof -
  from stream_loop_message_count [OF assms(1)]
  have mc: "message_count st1 = message_count st0 + length pre" .
  from stream_loop_append [OF assms(1), of rest] stream_loop_halted [OF assms(2), of lib fts rest] mc
  show ?thesis by simp
qed

theorem halted_loop_reads_one_more_item_witness:
  "snd (snd (stream_loop example_lib {''confirm''} (init_tstate JNull 0) example_frontend_stream)) = False
   \<and> halt_event_stream (fst (stream_loop example_lib {''confirm''} (init_tstate JNull 0) example_frontend_stream))
   \<and> stream_loop example_lib {''confirm''} (init_tstate JNull 0)
        (example_frontend_stream
         @ [StreamEvent (ContentBlockDelta (TextDelta ''more'')), StreamEvent MessageStop]) =
      ((fst (stream_loop example_lib {''confirm''} (init_tstate JNull 0) example_frontend_stream))
         \<lparr>message_count := 5\<rparr>,
       [ToolCallStart (Named ''t1'') ''confirm'' (Some (Uuid 0)),
        ToolCallArgs (Named ''t1'') ''{}'',
        ToolCallEnd (Named ''t1'')],
       True)"
proof -
  define r where "r = stream_loop example_lib {''confirm''} (init_tstate JNull 0) example_frontend_stream"
  have evs: "fst (snd r) = [ToolCallStart (Named ''t1'') ''confirm'' (Some (Uuid 0)),
        ToolCallArgs (Named ''t1'') ''{}'', ToolCallEnd (Named ''t1'')]"
    unfolding r_def by code_simp
  have nb: "snd (snd r) = False"
    unfolding r_def by code_simp
  have h: "halt_event_stream (fst r)"
    unfolding r_def by code_simp
  have r: "stream_loop example_lib {''confirm''} (init_tstate JNull 0) example_frontend_stream
             = (fst r, fst (snd r), False)"
    using nb by (simp add: r_def prod_eq_iff)
  have mc: "message_count (init_tstate JNull 0) = 0" "length example_frontend_stream = 4"
    by (simp_all add: init_tstate_def example_frontend_stream_def)
  from halted_loop_reads_one_more_item [OF r h,
      of "[StreamEvent (ContentBlockDelta (TextDelta ''more'')), StreamEvent MessageStop]"]
  have "stream_loop example_lib {''confirm''} (init_tstate JNull 0)
        (example_frontend_stream
         @ [StreamEvent (ContentBlockDelta (TextDelta ''more'')), StreamEvent MessageStop]) =
        ((fst r)\<lparr>message_count := 5\<rparr>, fst (snd r), True)"
    by (simp add: mc)
  with evs nb h show ?thesis
    by (simp add: r_def)
qed

text \<open>
  Claim C6 as stated fails: of the seven items of this stream, three of them after the
  halt, the loop reads five.
\<close>

theorem drain_counterexample:
  "message_count
     (snd (snd (stream_claude_sdk example_lib {''confirm''} [] (init_tstate JNull 0)
        (example_frontend_stream
         @ [StreamEvent (ContentBlockDelta (TextDelta ''more'')), StreamEvent MessageStop,
            ResultMessage None \<lparr>is_error = None, duration_ms = None, duration_api_ms = None,
               num_turns = None, total_cost_usd = JNull, usage = JNull, structured_output = JNull\<rparr>])
        None))) = 5
   \<and> length (example_frontend_stream
         @ [StreamEvent (ContentBlockDelta (TextDelta ''more'')), StreamEvent MessageStop,
            ResultMessage None \<lparr>is_error = None, duration_ms = None, duration_api_ms = None,
               num_turns = None, total_cost_usd = JNull, usage = JNull, structured_output = JNull\<rparr>]) = 7"
  by code_simp

section \<open>The state-management tool\<close>

text \<open>
  Claim C5 at a concrete stream: on the chunked path a call of the state-management tool
  yields a tool-call-start and a tool-call-args event before the state snapshot.
\<close>

theorem state_tool_start_emitted:
  \<open>fst (stream_claude_sdk example_lib {} []
          (init_tstate (JObj [(''count'', JNum 1)]) 0)
          [StreamEvent (ContentBlockStart
             (ToolUseStartBlock (Some ''t1'') (Some ''mcp__ag_ui__ag_ui_update_state''))),
           StreamEvent (ContentBlockDelta (InputJsonDelta ''{"count": 2}'')),
           StreamEvent ContentBlockStop]
          None) =
     [ToolCallStart (Named ''t1'') ''ag_ui_update_state'' None,
      ToolCallArgs (Named ''t1'') ''{"count": 2}'',
      StateSnapshot (JObj [(''count'', JNum 2)])]\<close>
  by code_simp

text \<open>
  Claim C8 at a concrete stream of the whole-message path: the shared state is the list
  \<^verbatim>\<open>[1]\<close> and the \<^verbatim>\<open>state_updates\<close> string of the state-management tool call is malformed.
  The handler replaces the failed parse by the empty dictionary and emits a state snapshot
  of it, whereas the claim has no snapshot come from a malformed payload (and the chunked
  path emits none, see \<open>malformed_streaming\<close>).
\<close>

theorem malformed_fallback_emits_snapshot:
  \<open>fst (stream_claude_sdk example_lib {} []
          (init_tstate (JArr [JNum 1]) 0)
          [AssistantMessage
             [ToolUseBlock None ''t1'' ''ag_ui_update_state'' [(''state_updates'', JStr ''{oops'')]]
             None]
          None) =
     [StateSnapshot (JObj [])]\<close>
  by code_simp

lemma content_block_stop_state_tool:
  assumes "current_tool_call_id st = Some tid" and "tid \<noteq> []"
    and "current_tool_call_name st = Some name" and "is_state_management_tool name"
    and "process_message lib fts st (StreamEvent ContentBlockStop) = (st', evs)"
  shows "\<exists>s1 s2 evs1.
           accumulated_tool_json s1 = accumulated_tool_json st
         \<and> current_state s1 = current_state st
         \<and> intercept_state_update lib s1 = (s2, evs1)
         \<and> current_state st' = current_state s2
         \<and> filter is_state_snapshot evs = filter is_state_snapshot evs1
         \<and> filter is_tool_call_result evs = filter is_tool_call_result evs1"
proof -
  obtain s1 e1 where ct: "close_thinking_block st = (s1, e1)"
    by (cases "close_thinking_block st")
  obtain s3 e3 where cc: "close_tool_call lib fts s1 = (s3, e3)"
    by (cases "close_tool_call lib fts s1")
  obtain s2 evs1 where is2: "intercept_state_update lib s1 = (s2, evs1)"
    by (cases "intercept_state_update lib s1")
  note fr = close_thinking_block_frame [OF ct]
  from assms(5) ct cc have res: "st' = s3" "evs = e1 @ e3"
    by (simp_all add: process_message_def on_stream_event_def on_content_block_stop_def)
  from fr(11) have e1: "filter is_state_snapshot e1 = []" "filter is_tool_call_result e1 = []"
    by simp_all
  from assms(1) fr(1) have t1: "current_tool_call_id s1 = Some tid" by simp
  from assms(3) fr(2) have n1: "current_tool_call_name s1 = Some name" by simp
  from close_tool_call_state_tool [OF t1 assms(2) n1 assms(4) is2 refl cc]
  have "current_state s3 = current_state s2
         \<and> filter is_state_snapshot e3 = filter is_state_snapshot evs1
         \<and> filter is_tool_call_result e3 = filter is_tool_call_result evs1" .
  with res e1 fr(4,5) is2 show ?thesis by auto
qed

text \<open>
  Claim C9. When the block of a state-management tool call closes, its accumulated JSON
  parses to a dictionary, the updates taken from it (the value under \<^verbatim>\<open>state_updates\<close>,
  parsed once more if it is a string, or the dictionary itself without that key) are a
  dictionary, and the shared state is a dictionary, then the new state is their shallow
  merge: a key of the updates maps to the update's value, any other key keeps its old
  value. Exactly one state snapshot is emitted, carrying the merged state, and no
  tool-call-result.
\<close>

theorem state_update_shallow_merge:
  assumes "current_tool_call_id st = Some tid" and "tid \<noteq> []"
    and "current_tool_call_name st = Some name" and "is_state_management_tool name"
    and "json_loads lib (accumulated_tool_json st) = Some (JObj payload)"
    and "(dict_get payload ''state_updates'' = None \<and> upd = payload)
         \<or> dict_get payload ''state_updates'' = Some (JObj upd)
         \<or> (\<exists>s. dict_get payload ''state_updates'' = Some (JStr s) \<and> json_loads lib s = Some (JObj upd))"
    and "current_state st = JObj cur"
    and "distinct (map fst upd)"
    and "process_message lib fts st (StreamEvent ContentBlockStop) = (st', evs)"
  shows "current_state st' = JObj (dict_merge cur upd)
       \<and> filter is_state_snapshot evs = [StateSnapshot (JObj (dict_merge cur upd))]
       \<and> filter is_tool_call_result evs = []
       \<and> (\<forall>k. dict_get (dict_merge cur upd) k =
                 (case dict_get upd k of Some v \<Rightarrow> Some v | None \<Rightarrow> dict_get cur k))"
proof -
  from content_block_stop_state_tool [OF assms(1-4) assms(9)]
  obtain s1 s2 evs1 where s1: "accumulated_tool_json s1 = accumulated_tool_json st"
      "current_state s1 = current_state st"
    and is2: "intercept_state_update lib s1 = (s2, evs1)"
    and res: "current_state st' = current_state s2"
      "filter is_state_snapshot evs = filter is_state_snapshot evs1"
      "filter is_tool_call_result evs = filter is_tool_call_result evs1"
    by blast
  from assms(5) s1(1) have l1: "json_loads lib (accumulated_tool_json s1) = Some (JObj payload)"
    by simp
  from assms(7) s1(2) have c1: "current_state s1 = JObj cur" by simp
  from intercept_state_update_merge [OF l1 assms(6) c1] is2
  have "s2 = s1\<lparr>current_state := JObj (dict_merge cur upd)\<rparr>"
    and "evs1 = [StateSnapshot (JObj (dict_merge cur upd))]"
    by simp_all
  with res have "current_state st' = JObj (dict_merge cur upd)
       \<and> filter is_state_snapshot evs = [StateSnapshot (JObj (dict_merge cur upd))]
       \<and> filter is_tool_call_result evs = []"
    by simp
  moreover from dict_get_dict_merge [OF assms(8)]
  have "\<forall>k. dict_get (dict_merge cur upd) k =
                 (case dict_get upd k of Some v \<Rightarrow> Some v | None \<Rightarrow> dict_get cur k)"
    by blast
  ultimately show ?thesis by blast
qed

theorem state_update_shallow_merge_witness:
  \<open>current_tool_call_id (example_state_tool_open ''{"state_updates": {"count": 2}}'') = Some ''t1''
   \<and> current_tool_call_name (example_state_tool_open ''{"state_updates": {"count": 2}}'')
       = Some ''mcp__ag_ui__ag_ui_update_state''
   \<and> json_loads example_lib (accumulated_tool_json (example_state_tool_open ''{"state_updates": {"count": 2}}''))
       = Some (JObj [(''state_updates'', JObj [(''count'', JNum 2)])])
   \<and> current_state (example_state_tool_open ''{"state_updates": {"count": 2}}'')
       = JObj [(''count'', JNum 1), (''title'', JStr ''draft'')]
   \<and> current_state (fst (process_message example_lib {}
          (example_state_tool_open ''{"state_updates": {"count": 2}}'') (StreamEvent ContentBlockStop)))
       = JObj [(''count'', JNum 2), (''title'', JStr ''draft'')]
   \<and> filter is_state_snapshot (snd (process_message example_lib {}
          (example_state_tool_open ''{"state_updates": {"count": 2}}'') (StreamEvent ContentBlockStop)))
       = [StateSnapshot (JObj [(''count'', JNum 2), (''title'', JStr ''draft'')])]
   \<and> filter is_tool_call_result (snd (process_message example_lib {}
          (example_state_tool_open ''{"state_updates": {"count": 2}}'') (StreamEvent ContentBlockStop)))
       = []\<close>
proof -
  define st where \<open>st = example_state_tool_open ''{"state_updates": {"count": 2}}''\<close>
  have h1: "current_tool_call_id st = Some ''t1''"
    unfolding st_def example_state_tool_open_def by code_simp
  have h3: "current_tool_call_name st = Some ''mcp__ag_ui__ag_ui_update_state''"
    unfolding st_def example_state_tool_open_def by code_simp
  have h4: "is_state_management_tool ''mcp__ag_ui__ag_ui_update_state''"
    by code_simp
  have h5: "json_loads example_lib (accumulated_tool_json st)
       = Some (JObj [(''state_updates'', JObj [(''count'', JNum 2)])])"
    unfolding st_def example_state_tool_open_def by code_simp
  have h6: "dict_get [(''state_updates'', JObj [(''count'', JNum 2)])] ''state_updates''
              = Some (JObj [(''count'', JNum 2)])"
    by code_simp
  have h7: "current_state st = JObj [(''count'', JNum 1), (''title'', JStr ''draft'')]"
    unfolding st_def example_state_tool_open_def by code_simp
  have h8: "distinct (map fst [(''count'', JNum 2)])"
    by simp
  have dm: "dict_merge [(''count'', JNum 1), (''title'', JStr ''draft'')] [(''count'', JNum 2)]
              = [(''count'', JNum 2), (''title'', JStr ''draft'')]"
    by code_simp
  from state_update_shallow_merge [OF h1 _ h3 h4 h5 _ h7 h8 surjective_pairing, of "{}"] h6
  have "current_state (fst (process_message example_lib {} st (StreamEvent ContentBlockStop)))
          = JObj [(''count'', JNum 2), (''title'', JStr ''draft'')]
      \<and> filter is_state_snapshot (snd (process_message example_lib {} st (StreamEvent ContentBlockStop)))
          = [StateSnapshot (JObj [(''count'', JNum 2), (''title'', JStr ''draft'')])]
      \<and> filter is_tool_call_result (snd (process_message example_lib {} st (StreamEvent ContentBlockStop)))
          = []"
    by (simp add: dm)
  with h1 h3 h5 h7 show ?thesis
    unfolding st_def by blast
qed

lemma malformed_streaming:
  assumes "current_tool_call_id st = Some tid" and "tid \<noteq> []"
    and "current_tool_call_name st = Some name" and "is_state_management_tool name"
    and "json_loads lib (accumulated_tool_json st) = None
         \<or> (\<exists>payload s. json_loads lib (accumulated_tool_json st) = Some (JObj payload)
               \<and> dict_get payload ''state_updates'' = Some (JStr s) \<and> json_loads lib s = None)"
    and "process_message lib fts st (StreamEvent ContentBlockStop) = (st', evs)"
  shows "current_state st' = current_state st \<and> filter is_state_snapshot evs = []"
proof -
  from content_block_stop_state_tool [OF assms(1-4) assms(6)]
  obtain s1 s2 evs1 where s1: "accumulated_tool_json s1 = accumulated_tool_json st"
      "current_state s1 = current_state st"
    and is2: "intercept_state_update lib s1 = (s2, evs1)"
    and res: "current_state st' = current_state s2"
      "filter is_state_snapshot evs = filter is_state_snapshot evs1"
    by blast
  from assms(5) s1(1) have "json_loads lib (accumulated_tool_json s1) = None
         \<or> (\<exists>payload s. json_loads lib (accumulated_tool_json s1) = Some (JObj payload)
               \<and> dict_get payload ''state_updates'' = Some (JStr s) \<and> json_loads lib s = None)"
    by simp
  from intercept_state_update_malformed [OF this] is2 have "s2 = s1" and "evs1 = []"
    by simp_all
  with res s1 show ?thesis by simp
qed

lemma malformed_fallback:
  assumes "is_state_management_tool bname"
    and "dict_get inp ''state_updates'' = Some (JStr s)" and "json_loads lib s = None"
    and "\<not> (bid \<noteq> [] \<and> bid \<in> processed_tool_ids st)"
    and "process_block lib parent st (ToolUseBlock ty bid bname inp) = (st', evs)"
  shows "current_state st' = current_state st
         \<and> (\<forall>cur. current_state st = JObj cur \<longrightarrow> evs = [StateSnapshot (JObj cur)])"
proof -
  from assms(1) have nm: "bname \<noteq> []"
    by (auto simp: is_state_management_tool_def STATE_MANAGEMENT_TOOL_NAME_def
                   STATE_MANAGEMENT_TOOL_FULL_NAME_def)
  from assms nm show ?thesis
    by (auto simp: process_block_def handle_tool_use_block_def event_gen_def Let_def
             split: if_splits prod.splits)
qed

section \<open>Effects of the handlers on the state\<close>

lemma intercept_state_update_effect:
  "intercept_state_update lib st = (st', evs) \<Longrightarrow>
   st' = st\<lparr>current_state := current_state st'\<rparr>
   \<and> (evs = [] \<or> evs = [StateSnapshot (current_state st')])"
  by (auto simp: intercept_state_update_def Let_def split: option.splits json.splits)

lemma process_block_frame:
  assumes "process_block lib parent st b = (st', evs)"
  shows "st' = st\<lparr>tool_name_by_id := tool_name_by_id st', next_uuid := next_uuid st',
                  processed_tool_ids := processed_tool_ids st', current_state := current_state st',
                  run_messages := run_messages st'\<rparr>
         \<and> next_uuid st \<le> next_uuid st'
         \<and> (\<forall>e\<in>set evs. is_tool_call_event e \<or> is_state_snapshot e)"
proof (cases b)
  case (ToolUseBlock ty tid name inp)
  with assms show ?thesis
    by (auto simp: process_block_def handle_tool_use_block_def event_gen_def Let_def
             split: if_splits)
next
  case (ToolResultBlock ty tuid content err)
  with assms show ?thesis
    by (auto simp: process_block_def handle_tool_result_block_def upsert_message_def Let_def)
next
  case (TextBlock ty t)
  with assms show ?thesis by (auto simp: process_block_def)
next
  case (ThinkingBlock ty t)
  with assms show ?thesis by (auto simp: process_block_def)
qed

lemma process_blocks_frame:
  assumes "process_blocks lib parent st bs = (st', evs)"
  shows "st' = st\<lparr>tool_name_by_id := tool_name_by_id st', next_uuid := next_uuid st',
                  processed_tool_ids := processed_tool_ids st', current_state := current_state st',
                  run_messages := run_messages st'\<rparr>
         \<and> next_uuid st \<le> next_uuid st'
         \<and> (\<forall>e\<in>set evs. is_tool_call_event e \<or> is_state_snapshot e)"
  using assms
proof (induction bs arbitrary: st st' evs)
  case Nil
  then show ?case by simp
next
  case (Cons b bs)
  obtain s1 e1 where pb: "process_block lib parent st b = (s1, e1)"
    by (cases "process_block lib parent st b")
  obtain s2 e2 where ps: "process_blocks lib parent s1 bs = (s2, e2)"
    by (cases "process_blocks lib parent s1 bs")
  from Cons.prems pb ps have eq: "st' = s2" "evs = e1 @ e2" by simp_all
  from process_block_frame [OF pb] have f1:
    "s1 = st\<lparr>tool_name_by_id := tool_name_by_id s1, next_uuid := next_uuid s1,
                  processed_tool_ids := processed_tool_ids s1, current_state := current_state s1,
                  run_messages := run_messages s1\<rparr>"
    and n1: "next_uuid st \<le> next_uuid s1"
    and ev1: "\<forall>e\<in>set e1. is_tool_call_event e \<or> is_state_snapshot e"
    by blast+
  from Cons.IH [OF ps] have f2:
    "s2 = s1\<lparr>tool_name_by_id := tool_name_by_id s2, next_uuid := next_uuid s2,
                  processed_tool_ids := processed_tool_ids s2, current_state := current_state s2,
                  run_messages := run_messages s2\<rparr>"
    and n2: "next_uuid s1 \<le> next_uuid s2"
    and ev2: "\<forall>e\<in>set e2. is_tool_call_event e \<or> is_state_snapshot e"
    by blast+
  have "s2 = st\<lparr>tool_name_by_id := tool_name_by_id s2, next_uuid := next_uuid s2,
                  processed_tool_ids := processed_tool_ids s2, current_state := current_state s2,
                  run_messages := run_messages s2\<rparr>"
    by (subst f2, subst f1) simp
  with n1 n2 ev1 ev2 eq show ?case by auto
qed


lemma complete_message_frame:
  assumes "process_message lib fts st msg = (st', evs)" and "\<forall>ev. msg \<noteq> StreamEvent ev"
  shows "st' = st\<lparr>tool_name_by_id := tool_name_by_id st', next_uuid := next_uuid st',
                  processed_tool_ids := processed_tool_ids st', current_state := current_state st',
                  run_messages := run_messages st', last_result_data := last_result_data st'\<rparr>
         \<and> next_uuid st \<le> next_uuid st'
         \<and> (\<forall>e\<in>set evs. is_tool_call_event e \<or> is_state_snapshot e
                \<or> uuid_between (next_uuid st) (next_uuid st') (text_event_id e))"
proof (cases msg)
  case (StreamEvent ev)
  with assms(2) show ?thesis by simp
next
  case (AssistantMessage content parent)
  define s1 where "s1 = st\<lparr>next_uuid := (case current_message_id st of Some mid \<Rightarrow> next_uuid st
                                             | None \<Rightarrow> Suc (next_uuid st))\<rparr>"
  define s2 where "s2 = (case build_agui_assistant_message lib content
                             (case current_message_id st of Some mid \<Rightarrow> mid | None \<Rightarrow> Uuid (next_uuid st)) of
                           None \<Rightarrow> s1 | Some agui_msg \<Rightarrow> upsert_message s1 agui_msg)"
  from assms(1) AssistantMessage have pb: "process_blocks lib parent s2 content = (st', evs)"
    by (simp add: process_message_def on_assistant_message_def s1_def s2_def Let_def
             split: option.splits)
  have s2: "s2 = st\<lparr>next_uuid := next_uuid s2, run_messages := run_messages s2\<rparr>"
    and n2: "next_uuid st \<le> next_uuid s2"
    by (simp_all add: s2_def s1_def upsert_message_def split: option.splits)
  from process_blocks_frame [OF pb] have f:
    "st' = s2\<lparr>tool_name_by_id := tool_name_by_id st', next_uuid := next_uuid st',
                  processed_tool_ids := processed_tool_ids st', current_state := current_state st',
                  run_messages := run_messages st'\<rparr>"
    and n: "next_uuid s2 \<le> next_uuid st'"
    and ev: "\<forall>e\<in>set evs. is_tool_call_event e \<or> is_state_snapshot e"
    by blast+
  have "st' = st\<lparr>tool_name_by_id := tool_name_by_id st', next_uuid := next_uuid st',
                  processed_tool_ids := processed_tool_ids st', current_state := current_state st',
                  run_messages := run_messages st', last_result_data := last_result_data st'\<rparr>"
    by (subst f, subst s2, subst (3) f, subst (2) s2) simp
  with n n2 ev show ?thesis by auto
next
  case (UserMessage content parent)
  with assms(1) obtain bs where pb: "process_blocks lib parent st bs = (st', evs)"
    by (auto simp: process_message_def on_user_message_def)
  from process_blocks_frame [OF pb] have f:
    "st' = st\<lparr>tool_name_by_id := tool_name_by_id st', next_uuid := next_uuid st',
                  processed_tool_ids := processed_tool_ids st', current_state := current_state st',
                  run_messages := run_messages st'\<rparr>"
    and n: "next_uuid st \<le> next_uuid st'"
    and ev: "\<forall>e\<in>set evs. is_tool_call_event e \<or> is_state_snapshot e"
    by blast+
  have "st' = st\<lparr>tool_name_by_id := tool_name_by_id st', next_uuid := next_uuid st',
                  processed_tool_ids := processed_tool_ids st', current_state := current_state st',
                  run_messages := run_messages st', last_result_data := last_result_data st'\<rparr>"
    by (subst f, subst (2) f) simp
  with n ev show ?thesis by auto
next
  case (SystemMessage subtype data)
  with assms(1) show ?thesis
    by (auto simp: process_message_def on_system_message_def emit_system_message_events_def
                   upsert_message_def Let_def split: if_splits)
next
  case (ResultMessage result_text data)
  with assms(1) show ?thesis
    by (auto simp: process_message_def on_result_message_def upsert_message_def Let_def
             split: option.splits if_splits)
next
  case OtherMessage
  with assms(1) show ?thesis
    by (auto simp: process_message_def)
qed


lemma intercept_state_update_cases:
  assumes "intercept_state_update lib st = (st', evs)"
  shows "\<exists>ns. st' = st\<lparr>current_state := ns\<rparr> \<and> (evs = [] \<or> evs = [StateSnapshot ns])"
  using intercept_state_update_effect [OF assms] by blast

lemma flush_pending_msg_fields:
  "current_message_id (flush_pending_msg st) = current_message_id st"
  "in_thinking_block (flush_pending_msg st) = in_thinking_block st"
  "has_streamed_text (flush_pending_msg st) = has_streamed_text st"
  "current_tool_call_id (flush_pending_msg st) = current_tool_call_id st"
  "current_tool_call_name (flush_pending_msg st) = current_tool_call_name st"
  "current_tool_display_name (flush_pending_msg st) = current_tool_display_name st"
  "accumulated_tool_json (flush_pending_msg st) = accumulated_tool_json st"
  "processed_tool_ids (flush_pending_msg st) = processed_tool_ids st"
  "tool_name_by_id (flush_pending_msg st) = tool_name_by_id st"
  "halt_event_stream (flush_pending_msg st) = halt_event_stream st"
  "accumulated_thinking_text (flush_pending_msg st) = accumulated_thinking_text st"
  "message_count (flush_pending_msg st) = message_count st"
  "current_state (flush_pending_msg st) = current_state st"
  "last_result_data (flush_pending_msg st) = last_result_data st"
  "next_uuid (flush_pending_msg st) = next_uuid st"
  "pending_msg (flush_pending_msg st) = None"
  by (simp_all add: flush_pending_msg_def upsert_message_def Let_def split: option.splits)

lemma attach_tool_call_fields:
  "current_message_id (attach_tool_call st tid b) = current_message_id st"
  "in_thinking_block (attach_tool_call st tid b) = in_thinking_block st"
  "has_streamed_text (attach_tool_call st tid b) = has_streamed_text st"
  "current_tool_call_id (attach_tool_call st tid b) = current_tool_call_id st"
  "current_tool_call_name (attach_tool_call st tid b) = current_tool_call_name st"
  "current_tool_display_name (attach_tool_call st tid b) = current_tool_display_name st"
  "accumulated_tool_json (attach_tool_call st tid b) = accumulated_tool_json st"
  "processed_tool_ids (attach_tool_call st tid b) = processed_tool_ids st"
  "tool_name_by_id (attach_tool_call st tid b) = tool_name_by_id st"
  "halt_event_stream (attach_tool_call st tid b) = halt_event_stream st"
  "run_messages (attach_tool_call st tid b) = run_messages st"
  "accumulated_thinking_text (attach_tool_call st tid b) = accumulated_thinking_text st"
  "message_count (attach_tool_call st tid b) = message_count st"
  "current_state (attach_tool_call st tid b) = current_state st"
  "last_result_data (attach_tool_call st tid b) = last_result_data st"
  "next_uuid (attach_tool_call st tid b) = next_uuid st"
  "map_option pending_id (pending_msg (attach_tool_call st tid b)) = map_option pending_id (pending_msg st)"
  "map_option pending_content (pending_msg (attach_tool_call st tid b)) = map_option pending_content (pending_msg st)"
  by (simp_all add: attach_tool_call_def split: option.splits)

lemma frontend_halt_fields:
  "in_thinking_block (fst (frontend_halt st tid)) = in_thinking_block st"
  "has_streamed_text (fst (frontend_halt st tid)) = has_streamed_text st"
  "current_tool_call_id (fst (frontend_halt st tid)) = current_tool_call_id st"
  "current_tool_call_name (fst (frontend_halt st tid)) = current_tool_call_name st"
  "current_tool_display_name (fst (frontend_halt st tid)) = current_tool_display_name st"
  "accumulated_tool_json (fst (frontend_halt st tid)) = accumulated_tool_json st"
  "processed_tool_ids (fst (frontend_halt st tid)) = processed_tool_ids st"
  "tool_name_by_id (fst (frontend_halt st tid)) = tool_name_by_id st"
  "accumulated_thinking_text (fst (frontend_halt st tid)) = accumulated_thinking_text st"
  "message_count (fst (frontend_halt st tid)) = message_count st"
  "current_state (fst (frontend_halt st tid)) = current_state st"
  "last_result_data (fst (frontend_halt st tid)) = last_result_data st"
  "next_uuid (fst (frontend_halt st tid)) = next_uuid st"
  "pending_msg (fst (frontend_halt st tid)) = None"
  "halt_event_stream (fst (frontend_halt st tid)) = True"
  "current_message_id (fst (frontend_halt st tid)) = (if has_streamed_text st then None else current_message_id st)"
  "run_messages (fst (frontend_halt st tid)) = run_messages (flush_pending_msg st)"
  "snd (frontend_halt st tid) =
     [ToolCallEnd (Named tid)]
     @ (case current_message_id st of
          None \<Rightarrow> []
        | Some mid \<Rightarrow> (if has_streamed_text st then [TextMessageEnd mid] else []))"
  by (auto simp: frontend_halt_def Let_def flush_pending_msg_fields split: option.splits)

lemma intercept_state_update_fields:
  "current_message_id (fst (intercept_state_update lib st)) = current_message_id st"
  "in_thinking_block (fst (intercept_state_update lib st)) = in_thinking_block st"
  "has_streamed_text (fst (intercept_state_update lib st)) = has_streamed_text st"
  "current_tool_call_id (fst (intercept_state_update lib st)) = current_tool_call_id st"
  "current_tool_call_name (fst (intercept_state_update lib st)) = current_tool_call_name st"
  "current_tool_display_name (fst (intercept_state_update lib st)) = current_tool_display_name st"
  "accumulated_tool_json (fst (intercept_state_update lib st)) = accumulated_tool_json st"
  "processed_tool_ids (fst (intercept_state_update lib st)) = processed_tool_ids st"
  "tool_name_by_id (fst (intercept_state_update lib st)) = tool_name_by_id st"
  "halt_event_stream (fst (intercept_state_update lib st)) = halt_event_stream st"
  "run_messages (fst (intercept_state_update lib st)) = run_messages st"
  "pending_msg (fst (intercept_state_update lib st)) = pending_msg st"
  "accumulated_thinking_text (fst (intercept_state_update lib st)) = accumulated_thinking_text st"
  "message_count (fst (intercept_state_update lib st)) = message_count st"
  "last_result_data (fst (intercept_state_update lib st)) = last_result_data st"
  "next_uuid (fst (intercept_state_update lib st)) = next_uuid st"
  "snd (intercept_state_update lib st) = []
   \<or> snd (intercept_state_update lib st) = [StateSnapshot (current_state (fst (intercept_state_update lib st)))]"
  using intercept_state_update_cases [of lib st "fst (intercept_state_update lib st)" "snd (intercept_state_update lib st)"]
  by auto

lemma close_thinking_block_fields:
  "current_message_id (fst (close_thinking_block st)) = current_message_id st"
  "has_streamed_text (fst (close_thinking_block st)) = has_streamed_text st"
  "current_tool_call_id (fst (close_thinking_block st)) = current_tool_call_id st"
  "current_tool_call_name (fst (close_thinking_block st)) = current_tool_call_name st"
  "current_tool_display_name (fst (close_thinking_block st)) = current_tool_display_name st"
  "accumulated_tool_json (fst (close_thinking_block st)) = accumulated_tool_json st"
  "processed_tool_ids (fst (close_thinking_block st)) = processed_tool_ids st"
  "tool_name_by_id (fst (close_thinking_block st)) = tool_name_by_id st"
  "halt_event_stream (fst (close_thinking_block st)) = halt_event_stream st"
  "pending_msg (fst (close_thinking_block st)) = pending_msg st"
  "message_count (fst (close_thinking_block st)) = message_count st"
  "current_state (fst (close_thinking_block st)) = current_state st"
  "last_result_data (fst (close_thinking_block st)) = last_result_data st"
  "in_thinking_block (fst (close_thinking_block st)) = False"
  "next_uuid st \<le> next_uuid (fst (close_thinking_block st))"
  "snd (close_thinking_block st) = (if in_thinking_block st then [ThinkingTextMessageEnd, ThinkingEnd] else [])"
  by (simp_all add: close_thinking_block_def upsert_message_def Let_def)


lemmas piece_fields =
  flush_pending_msg_fields attach_tool_call_fields frontend_halt_fields
  intercept_state_update_fields(1-16) close_thinking_block_fields

lemma close_tool_call_same:
  "in_thinking_block (fst (close_tool_call lib fts st)) = in_thinking_block st"
  "has_streamed_text (fst (close_tool_call lib fts st)) = has_streamed_text st"
  "processed_tool_ids (fst (close_tool_call lib fts st)) = processed_tool_ids st"
  "tool_name_by_id (fst (close_tool_call lib fts st)) = tool_name_by_id st"
  "accumulated_thinking_text (fst (close_tool_call lib fts st)) = accumulated_thinking_text st"
  "message_count (fst (close_tool_call lib fts st)) = message_count st"
  "last_result_data (fst (close_tool_call lib fts st)) = last_result_data st"
  "next_uuid (fst (close_tool_call lib fts st)) = next_uuid st"
  by (simp_all add: close_tool_call_def Let_def split_beta piece_fields reset_tool_state_def
               split: option.splits)

lemma close_tool_call_frontend:
  assumes "current_tool_call_id st = Some tid" and "tid \<noteq> []"
    and "current_tool_display_name st = Some d" and "d \<in> fts"
  shows "halt_event_stream (fst (close_tool_call lib fts st)) = True"
    and "current_tool_call_id (fst (close_tool_call lib fts st)) = Some tid"
    and "pending_msg (fst (close_tool_call lib fts st)) = None"
    and "current_message_id (fst (close_tool_call lib fts st)) =
           (if has_streamed_text st then None else current_message_id st)"
    and "snd (close_tool_call lib fts st) =
           (case current_tool_call_name st of
              None \<Rightarrow> []
            | Some n \<Rightarrow> if is_state_management_tool n then snd (intercept_state_update lib st) else [])
           @ [ToolCallEnd (Named tid)]
           @ (case current_message_id st of
                None \<Rightarrow> []
              | Some mid \<Rightarrow> (if has_streamed_text st then [TextMessageEnd mid] else []))"
  using assms
  by (simp_all add: close_tool_call_def Let_def split_beta piece_fields split: option.splits)

lemma close_tool_call_backend:
  assumes "current_tool_call_id st = Some tid" and "tid \<noteq> []"
    and "case current_tool_display_name st of None \<Rightarrow> True | Some d \<Rightarrow> d \<notin> fts"
  shows "halt_event_stream (fst (close_tool_call lib fts st)) = halt_event_stream st"
    and "current_tool_call_id (fst (close_tool_call lib fts st)) = None"
    and "current_tool_call_name (fst (close_tool_call lib fts st)) = None"
    and "current_tool_display_name (fst (close_tool_call lib fts st)) = None"
    and "accumulated_tool_json (fst (close_tool_call lib fts st)) = []"
    and "run_messages (fst (close_tool_call lib fts st)) = run_messages st"
    and "map_option pending_id (pending_msg (fst (close_tool_call lib fts st))) = map_option pending_id (pending_msg st)"
    and "map_option pending_content (pending_msg (fst (close_tool_call lib fts st))) = map_option pending_content (pending_msg st)"
    and "current_message_id (fst (close_tool_call lib fts st)) = current_message_id st"
    and "snd (close_tool_call lib fts st) =
           (case current_tool_call_name st of
              None \<Rightarrow> []
            | Some n \<Rightarrow> if is_state_management_tool n then snd (intercept_state_update lib st) else [])"
  using assms
  by (simp_all add: close_tool_call_def Let_def split_beta piece_fields reset_tool_state_def
               split: option.splits)

lemma close_tool_call_closed:
  assumes "\<not> truthy_str (current_tool_call_id st)"
  shows "close_tool_call lib fts st = (st, [])"
  using assms
  by (cases "current_tool_call_id st") (simp_all add: close_tool_call_def)

lemma stream_loop_Cons:
  assumes "\<not> halt_event_stream st"
    and "process_message lib fts (st\<lparr>message_count := message_count st + 1\<rparr>) m = (s', e)"
    and "stream_loop lib fts s' ms = (s'', e', b)"
  shows "stream_loop lib fts st (m # ms) = (s'', e @ e', b)"
  using assms by simp

lemma json_deltas_loop:
  assumes "current_tool_call_id s = Some tid" and "tid \<noteq> []" and "\<not> halt_event_stream s"
  shows "stream_loop lib fts s (map (\<lambda>c. StreamEvent (ContentBlockDelta (InputJsonDelta c))) chunks) =
           (s\<lparr>message_count := message_count s + length chunks,
              accumulated_tool_json := accumulated_tool_json s @ concat chunks\<rparr>,
            map (ToolCallArgs (Named tid)) (filter (\<lambda>c. c \<noteq> []) chunks),
            False)"
  using assms
proof (induction chunks arbitrary: s)
  case Nil
  then show ?case by simp
next
  case (Cons c cs)
  let ?s1 = "s\<lparr>message_count := message_count s + 1\<rparr>"
  let ?s2 = "if c \<noteq> [] then ?s1\<lparr>accumulated_tool_json := accumulated_tool_json s @ c\<rparr> else ?s1"
  from Cons.prems have pm: "process_message lib fts ?s1 (StreamEvent (ContentBlockDelta (InputJsonDelta c)))
      = (?s2, if c \<noteq> [] then [ToolCallArgs (Named tid) c] else [])"
    by (simp add: process_message_def on_stream_event_def on_input_json_delta_def)
  from Cons.prems have "current_tool_call_id ?s2 = Some tid" "\<not> halt_event_stream ?s2"
    by simp_all
  from Cons.IH [OF this(1) Cons.prems(2) this(2)]
  have ih: "stream_loop lib fts ?s2 (map (\<lambda>c. StreamEvent (ContentBlockDelta (InputJsonDelta c))) cs) =
           (?s2\<lparr>message_count := message_count ?s2 + length cs,
              accumulated_tool_json := accumulated_tool_json ?s2 @ concat cs\<rparr>,
            map (ToolCallArgs (Named tid)) (filter (\<lambda>c. c \<noteq> []) cs),
            False)" .
  from stream_loop_Cons [OF Cons.prems(3) pm ih] show ?case
    by simp
qed


lemma cleanup_fields:
  "halt_event_stream (fst (cleanup st)) = halt_event_stream st"
  "pending_msg (fst (cleanup st)) = None"
  "current_tool_call_id (fst (cleanup st)) = (if truthy_str (current_tool_call_id st) then None else current_tool_call_id st)"
  "snd (cleanup st) =
     (case current_tool_call_id st of
        None \<Rightarrow> []
      | Some tid \<Rightarrow> if tid \<noteq> [] then [ToolCallEnd (Named tid)] else [])
     @ (if in_thinking_block st then [ThinkingTextMessageEnd, ThinkingEnd] else [])
     @ (case current_message_id st of
          None \<Rightarrow> []
        | Some mid \<Rightarrow> if has_streamed_text st then [TextMessageEnd mid] else [])"
  by (auto simp: cleanup_def Let_def split_beta flush_pending_msg_fields split: option.splits)

lemma messages_snapshot_closing: "\<forall>e\<in>set (messages_snapshot input_messages st). is_end_or_snapshot e"
  by (simp add: messages_snapshot_def)

section \<open>Frontend tools\<close>

text \<open>
  The halt on the chunked path. Let the translator not be halted when a tool-use block
  arrives in chunks: a \<^verbatim>\<open>content_block_start\<close> with a non-empty id, \<^verbatim>\<open>input_json_delta\<close> chunks and
  the \<^verbatim>\<open>content_block_stop\<close>. If the display name of the tool (its name without the
  \<^verbatim>\<open>mcp__server__\<close> prefix) is one of the declared frontend tool names, the output from
  that block on is the tool-call-start, the argument chunks (with the closing events of a
  thinking block, or a state snapshot, possibly among them) and the tool-call-end; every
  event after that tool-call-end is a text-message-end, a tool-call-end or the messages
  snapshot, so no content event follows; and the halted flag is set.
\<close>

lemma frontend_tool_halts:
  assumes pre: "stream_loop lib fts st0 pre = (st1, evs1, False)"
    and nh: "\<not> halt_event_stream st1"
    and tid: "tid \<noteq> []"
    and fe: "strip_mcp_prefix name \<in> fts"
  shows "\<exists>mid after err st.
           stream_claude_sdk lib fts input_messages st0
             (pre @ [StreamEvent (ContentBlockStart (ToolUseStartBlock (Some tid) (Some name)))]
                  @ map (\<lambda>c. StreamEvent (ContentBlockDelta (InputJsonDelta c))) chunks
                  @ [StreamEvent ContentBlockStop] @ post)
             raises
           = (evs1 @ [ToolCallStart (Named tid) (strip_mcp_prefix name) (current_message_id st1)]
                   @ mid @ [ToolCallEnd (Named tid)] @ after,
              err, st)
         \<and> filter is_tool_call_event mid = map (ToolCallArgs (Named tid)) (filter (\<lambda>c. c \<noteq> []) chunks)
         \<and> (\<forall>e\<in>set after. is_end_or_snapshot e)
         \<and> halt_event_stream st"
proof -
  let ?start = "StreamEvent (ContentBlockStart (ToolUseStartBlock (Some tid) (Some name)))"
  let ?args = "map (\<lambda>c. StreamEvent (ContentBlockDelta (InputJsonDelta c))) chunks"
  let ?stop = "StreamEvent ContentBlockStop"
  let ?d = "strip_mcp_prefix name"
  \<comment> \<open>the tool-use block opens\<close>
  define s2 where "s2 = st1\<lparr>message_count := message_count st1 + 1,
       current_tool_call_id := Some tid, current_tool_call_name := Some name,
       accumulated_tool_json := [], current_tool_display_name := Some ?d,
       processed_tool_ids := insert tid (processed_tool_ids st1),
       tool_name_by_id := (tool_name_by_id st1)(tid \<mapsto> ?d)\<rparr>"
  have A: "process_message lib fts (st1\<lparr>message_count := message_count st1 + 1\<rparr>) ?start
             = (s2, [ToolCallStart (Named tid) ?d (current_message_id st1)])"
    using tid by (simp add: process_message_def on_stream_event_def on_content_block_start_def s2_def Let_def)
  have s2: "current_tool_call_id s2 = Some tid" "\<not> halt_event_stream s2"
      "current_tool_display_name s2 = Some ?d"
    using nh by (simp_all add: s2_def)
  \<comment> \<open>its arguments arrive\<close>
  define s3 where "s3 = s2\<lparr>message_count := message_count s2 + length chunks,
              accumulated_tool_json := accumulated_tool_json s2 @ concat chunks\<rparr>"
  let ?argevs = "map (ToolCallArgs (Named tid)) (filter (\<lambda>c. c \<noteq> []) chunks)"
  have B: "stream_loop lib fts s2 ?args = (s3, ?argevs, False)"
    unfolding s3_def by (rule json_deltas_loop [OF s2(1) tid s2(2)])
  have s3: "current_tool_call_id s3 = Some tid" "\<not> halt_event_stream s3"
      "current_tool_display_name s3 = Some ?d"
    using s2 by (simp_all add: s3_def)
  \<comment> \<open>the block closes: the halt\<close>
  define s3' where "s3' = s3\<lparr>message_count := message_count s3 + 1\<rparr>"
  define s4 where "s4 = fst (close_thinking_block s3')"
  define e4 where "e4 = snd (close_thinking_block s3')"
  define s5 where "s5 = fst (close_tool_call lib fts s4)"
  define e5 where "e5 = snd (close_tool_call lib fts s4)"
  have C: "process_message lib fts s3' ?stop = (s5, e4 @ e5)"
    by (simp add: process_message_def on_stream_event_def on_content_block_stop_def split_beta
                  s4_def e4_def s5_def e5_def)
  have s4: "current_tool_call_id s4 = Some tid" "current_tool_display_name s4 = Some ?d"
      "in_thinking_block s4 = False"
    using s3 by (simp_all add: s4_def s3'_def close_thinking_block_fields)
  have e4: "filter is_tool_call_event e4 = []"
    by (simp add: e4_def close_thinking_block_fields)
  note fr = close_tool_call_frontend [OF s4(1) tid s4(2) fe, of lib]
  have s5: "halt_event_stream s5" "current_tool_call_id s5 = Some tid"
      "in_thinking_block s5 = False"
      "current_message_id s5 = None \<or> \<not> has_streamed_text s5"
    using fr(1,2,4) s4(3) by (simp_all add: s5_def close_tool_call_same split: if_splits)
  define snap where "snap = (case current_tool_call_name s4 of
              None \<Rightarrow> []
            | Some n \<Rightarrow> if is_state_management_tool n then snd (intercept_state_update lib s4) else [])"
  define text_end where "text_end = (case current_message_id s4 of
                None \<Rightarrow> []
              | Some mid \<Rightarrow> (if has_streamed_text s4 then [TextMessageEnd mid] else []))"
  have e5: "e5 = snap @ [ToolCallEnd (Named tid)] @ text_end"
    using fr(5) by (simp add: e5_def snap_def text_end_def)
  have snap: "filter is_tool_call_event snap = []"
    using intercept_state_update_fields(17) [of lib s4]
    by (auto simp: snap_def split: option.splits)
  have text_end: "\<forall>e\<in>set text_end. is_end_or_snapshot e"
    by (auto simp: text_end_def split: option.splits)
  \<comment> \<open>nothing after the halt is translated\<close>
  define s6 where "s6 = (if post = [] then s5 else s5\<lparr>message_count := message_count s5 + 1\<rparr>)"
  have D: "stream_loop lib fts s5 post = (s6, [], post \<noteq> [])"
    using stream_loop_halted [OF s5(1), of lib fts post] by (simp add: s6_def)
  have s6: "halt_event_stream s6" "current_tool_call_id s6 = Some tid"
      "in_thinking_block s6 = False"
      "current_message_id s6 = None \<or> \<not> has_streamed_text s6"
    using s5 by (auto simp: s6_def)
  from stream_loop_Cons [OF s3(2) C [unfolded s3'_def] D]
  have E: "stream_loop lib fts s3 (?stop # post) = (s6, e4 @ e5, post \<noteq> [])"
    by simp
  from stream_loop_append [OF B, of "?stop # post"] E
  have F: "stream_loop lib fts s2 (?args @ ?stop # post) = (s6, ?argevs @ e4 @ e5, post \<noteq> [])"
    by simp
  from stream_loop_Cons [OF nh A F]
  have G: "stream_loop lib fts st1 (?start # ?args @ ?stop # post)
             = (s6, ToolCallStart (Named tid) ?d (current_message_id st1) # ?argevs @ e4 @ e5, post \<noteq> [])"
    by simp
  from stream_loop_append [OF pre, of "?start # ?args @ ?stop # post"] G
  have H: "stream_loop lib fts st0 (pre @ [?start] @ ?args @ [?stop] @ post)
             = (s6, evs1 @ [ToolCallStart (Named tid) ?d (current_message_id st1)]
                      @ (?argevs @ e4 @ snap) @ [ToolCallEnd (Named tid)] @ text_end, post \<noteq> [])"
    by (simp add: e5)
  have cl: "snd (cleanup s6) = [ToolCallEnd (Named tid)]"
    using s6 tid by (auto simp: cleanup_fields split: option.splits)
  define st where "st = fst (cleanup s6)"
  define after where "after = text_end @ [ToolCallEnd (Named tid)] @ messages_snapshot input_messages st"
  have res: "stream_claude_sdk lib fts input_messages st0
             (pre @ [?start] @ ?args @ [?stop] @ post) raises
           = (evs1 @ [ToolCallStart (Named tid) ?d (current_message_id st1)]
                   @ (?argevs @ e4 @ snap) @ [ToolCallEnd (Named tid)] @ after,
              (if post \<noteq> [] then None else raises), st)"
    using cl H by (simp add: stream_claude_sdk_def split_beta st_def after_def)
  have mid: "filter is_tool_call_event (?argevs @ e4 @ snap) = ?argevs"
    using e4 snap by (simp add: filter_id_conv)
  have aft: "\<forall>e\<in>set after. is_end_or_snapshot e"
    using text_end messages_snapshot_closing [of input_messages st] by (auto simp: after_def)
  have hs: "halt_event_stream st"
    using s6(1) by (simp add: st_def cleanup_fields)
  from res mid aft hs show ?thesis by blast
qed

lemma frontend_tool_halts_example:
  "snd (snd (stream_loop example_lib {''confirm''} (init_tstate JNull 0) [StreamEvent MessageStart])) = False
   \<and> halt_event_stream (fst (stream_loop example_lib {''confirm''} (init_tstate JNull 0)
         [StreamEvent MessageStart])) = False
   \<and> strip_mcp_prefix ''mcp__ag_ui__confirm'' \<in> {''confirm''}
   \<and> fst (stream_claude_sdk example_lib {''confirm''} [] (init_tstate JNull 0)
        ([StreamEvent MessageStart]
         @ [StreamEvent (ContentBlockStart (ToolUseStartBlock (Some ''t1'') (Some ''mcp__ag_ui__confirm'')))]
         @ map (\<lambda>c. StreamEvent (ContentBlockDelta (InputJsonDelta c))) [''{}'']
         @ [StreamEvent ContentBlockStop]
         @ [StreamEvent (ContentBlockDelta (TextDelta ''more'')), StreamEvent MessageStop])
        None) =
      [ToolCallStart (Named ''t1'') ''confirm'' (Some (Uuid 0)),
       ToolCallArgs (Named ''t1'') ''{}'',
       ToolCallEnd (Named ''t1''),
       ToolCallEnd (Named ''t1''),
       MessagesSnapshot
         [RunMessage (AssistantMsg (Uuid 0) None (Some [ToolCall ''t1'' ''confirm'' ''{}'']))]]
   \<and> halt_event_stream (snd (snd (stream_claude_sdk example_lib {''confirm''} [] (init_tstate JNull 0)
        ([StreamEvent MessageStart]
         @ [StreamEvent (ContentBlockStart (ToolUseStartBlock (Some ''t1'') (Some ''mcp__ag_ui__confirm'')))]
         @ map (\<lambda>c. StreamEvent (ContentBlockDelta (InputJsonDelta c))) [''{}'']
         @ [StreamEvent ContentBlockStop]
         @ [StreamEvent (ContentBlockDelta (TextDelta ''more'')), StreamEvent MessageStop])
        None)))"
proof -
  define r where "r = stream_loop example_lib {''confirm''} (init_tstate JNull 0) [StreamEvent MessageStart]"
  define full where "full = stream_claude_sdk example_lib {''confirm''} [] (init_tstate JNull 0)
        ([StreamEvent MessageStart]
         @ [StreamEvent (ContentBlockStart (ToolUseStartBlock (Some ''t1'') (Some ''mcp__ag_ui__confirm'')))]
         @ map (\<lambda>c. StreamEvent (ContentBlockDelta (InputJsonDelta c))) [''{}'']
         @ [StreamEvent ContentBlockStop]
         @ [StreamEvent (ContentBlockDelta (TextDelta ''more'')), StreamEvent MessageStop])
        None"
  have nb: "snd (snd r) = False"
    unfolding r_def by code_simp
  have nh: "\<not> halt_event_stream (fst r)"
    unfolding r_def by code_simp
  have tid: "''t1'' \<noteq> []" by simp
  have fe: "strip_mcp_prefix ''mcp__ag_ui__confirm'' \<in> {''confirm''}"
    by code_simp
  have r: "stream_loop example_lib {''confirm''} (init_tstate JNull 0) [StreamEvent MessageStart]
             = (fst r, fst (snd r), False)"
    using nb by (simp add: r_def prod_eq_iff)
  from frontend_tool_halts [OF r nh tid fe, of "[]" "[''{}'']"
         "[StreamEvent (ContentBlockDelta (TextDelta ''more'')), StreamEvent MessageStop]" None]
  obtain mid after err st where "full = (fst (snd r) @ [ToolCallStart (Named ''t1'')
              (strip_mcp_prefix ''mcp__ag_ui__confirm'') (current_message_id (fst r))]
                   @ mid @ [ToolCallEnd (Named ''t1'')] @ after, err, st)"
     and hs: "halt_event_stream st"
    unfolding full_def by blast
  then have h: "halt_event_stream (snd (snd full))" by simp
  have evs: "fst full = [ToolCallStart (Named ''t1'') ''confirm'' (Some (Uuid 0)),
       ToolCallArgs (Named ''t1'') ''{}'',
       ToolCallEnd (Named ''t1''),
       ToolCallEnd (Named ''t1''),
       MessagesSnapshot
         [RunMessage (AssistantMsg (Uuid 0) None (Some [ToolCall ''t1'' ''confirm'' ''{}'']))]]"
    unfolding full_def by code_simp
  from nb nh fe evs h show ?thesis
    unfolding r_def full_def by simp
qed

text \<open>
  Claim C7 at a concrete stream of the whole-message path: the call of the declared
  frontend tool \<^verbatim>\<open>confirm\<close> arrives as a tool-use block of a complete message. The handler
  emits its tool-call-start and nothing else: there is no tool-call-end, the halted flag
  stays unset, and the text of the following message is translated, whereas the claim (and
  the chunked path, see \<open>frontend_tool_halts\<close>) ends the output at the tool-call-end and
  halts.
\<close>

theorem whole_message_frontend_tool_not_halted:
  "fst (stream_claude_sdk example_lib {''confirm''} [] (init_tstate JNull 0)
     [AssistantMessage [ToolUseBlock None ''t1'' ''mcp__ag_ui__confirm'' []] None,
      StreamEvent MessageStart,
      StreamEvent (ContentBlockDelta (TextDelta ''more'')),
      StreamEvent MessageStop]
     None) =
   [ToolCallStart (Named ''t1'') ''confirm'' None,
    TextMessageStart (Uuid 1) ''assistant'',
    TextMessageContent (Uuid 1) ''more'',
    TextMessageEnd (Uuid 1),
    MessagesSnapshot [RunMessage (AssistantMsg (Uuid 1) (Some ''more'') None)]]
   \<and> halt_event_stream (snd (snd (stream_claude_sdk example_lib {''confirm''} [] (init_tstate JNull 0)
     [AssistantMessage [ToolUseBlock None ''t1'' ''mcp__ag_ui__confirm'' []] None,
      StreamEvent MessageStart,
      StreamEvent (ContentBlockDelta (TextDelta ''more'')),
      StreamEvent MessageStop]
     None))) = False"
  by code_simp

section \<open>Cleanup\<close>

lemma close_tool_call_tool_id:
  "current_tool_call_id (fst (close_tool_call lib fts s)) = None
   \<or> current_tool_call_id (fst (close_tool_call lib fts s)) = current_tool_call_id s"
proof (cases "truthy_str (current_tool_call_id s)")
  case False
  then show ?thesis by (simp add: close_tool_call_closed)
next
  case True
  then obtain tid where t: "current_tool_call_id s = Some tid" "tid \<noteq> []"
    by (cases "current_tool_call_id s") auto
  show ?thesis
  proof (cases "case current_tool_display_name s of None \<Rightarrow> True | Some d \<Rightarrow> d \<notin> fts")
    case True
    from close_tool_call_backend(2) [OF t True] show ?thesis by simp
  next
    case False
    then obtain d where "current_tool_display_name s = Some d" "d \<in> fts"
      by (cases "current_tool_display_name s") auto
    from close_tool_call_frontend(2) [OF t this] t show ?thesis by simp
  qed
qed

lemma on_stream_event_open_tool:
  assumes "on_stream_event lib fts st ev = (st', evs)"
    and "current_tool_call_id st' = Some tid" and "tid \<noteq> []"
  shows "current_tool_call_id st = Some tid
         \<or> (\<exists>name parent. ToolCallStart (Named tid) name parent \<in> set evs)"
proof (cases ev)
  case MessageStart
  with assms show ?thesis by (auto simp: on_stream_event_def on_message_start_def Let_def)
next
  case (ContentBlockDelta d)
  with assms show ?thesis
    by (cases d)
       (auto simp: on_stream_event_def on_text_delta_def on_thinking_delta_def
          on_input_json_delta_def split: option.splits if_splits)
next
  case (ContentBlockStart b)
  with assms show ?thesis
    by (cases b)
       (auto simp: on_stream_event_def on_content_block_start_def Let_def
             split: option.splits if_splits)
next
  case ContentBlockStop
  with assms(1) have st': "st' = fst (close_tool_call lib fts (fst (close_thinking_block st)))"
    by (simp add: on_stream_event_def on_content_block_stop_def split_beta)
  from close_tool_call_tool_id [of lib fts "fst (close_thinking_block st)"] st' assms(2)
  show ?thesis by (simp add: close_thinking_block_fields)
next
  case MessageStop
  with assms show ?thesis
    by (auto simp: on_stream_event_def on_message_stop_def Let_def flush_pending_msg_fields)
next
  case MessageDelta
  with assms show ?thesis by (auto simp: on_stream_event_def)
next
  case OtherStreamEvent
  with assms show ?thesis by (auto simp: on_stream_event_def)
qed

lemma process_message_open_tool:
  assumes "process_message lib fts st m = (st', evs)"
    and "current_tool_call_id st' = Some tid" and "tid \<noteq> []"
  shows "current_tool_call_id st = Some tid
         \<or> (\<exists>name parent. ToolCallStart (Named tid) name parent \<in> set evs)"
proof (cases "\<exists>ev. m = StreamEvent ev")
  case True
  then obtain ev where "m = StreamEvent ev" by blast
  with assms(1) have "on_stream_event lib fts st ev = (st', evs)"
    by (simp add: process_message_def)
  from on_stream_event_open_tool [OF this assms(2,3)] show ?thesis .
next
  case False
  then have "\<forall>ev. m \<noteq> StreamEvent ev" by blast
  from complete_message_frame [OF assms(1) this]
  have eq: "st' = st\<lparr>tool_name_by_id := tool_name_by_id st', next_uuid := next_uuid st',
                  processed_tool_ids := processed_tool_ids st', current_state := current_state st',
                  run_messages := run_messages st', last_result_data := last_result_data st'\<rparr>"
    by blast
  from arg_cong [OF eq, of current_tool_call_id] assms(2) show ?thesis by simp
qed

lemma stream_loop_open_tool:
  assumes "stream_loop lib fts st ms = (st', evs, b)"
    and "current_tool_call_id st' = Some tid" and "tid \<noteq> []"
  shows "current_tool_call_id st = Some tid
         \<or> (\<exists>name parent. ToolCallStart (Named tid) name parent \<in> set evs)"
  using assms
proof (induction ms arbitrary: st st' evs b)
  case Nil
  then show ?case by simp
next
  case (Cons m ms)
  let ?s = "st\<lparr>message_count := message_count st + 1\<rparr>"
  show ?case
  proof (cases "halt_event_stream st")
    case True
    with Cons.prems show ?thesis by auto
  next
    case False
    obtain s2 e2 where pm: "process_message lib fts ?s m = (s2, e2)"
      by (cases "process_message lib fts ?s m")
    obtain s3 e3 b3 where sl: "stream_loop lib fts s2 ms = (s3, e3, b3)"
      by (cases "stream_loop lib fts s2 ms") auto
    from Cons.prems(1) False pm sl have eq: "st' = s3" "evs = e2 @ e3" by auto
    from Cons.IH [OF sl] Cons.prems(2,3) eq
    have "current_tool_call_id s2 = Some tid
         \<or> (\<exists>name parent. ToolCallStart (Named tid) name parent \<in> set e3)" by simp
    then show ?thesis
    proof
      assume "current_tool_call_id s2 = Some tid"
      from process_message_open_tool [OF pm this Cons.prems(3)] eq show ?thesis by auto
    next
      assume "\<exists>name parent. ToolCallStart (Named tid) name parent \<in> set e3"
      with eq show ?thesis by auto
    qed
  qed
qed

text \<open>
  The cleanup block and the tool call that is open. When the loop ends (the stream is
  exhausted, raises, or the loop is left) while a tool call is open, the output contains
  the tool-call-start of that call and the cleanup block emits its tool-call-end first,
  then closes an open thinking block, then an open text message, and flushes the pending
  message; the exception of the stream, if the loop read that far, is re-raised afterwards.
\<close>

lemma cleanup_closes_open_tool_call:
  assumes "stream_loop lib fts st0 msgs = (st1, evs, broke)"
    and "current_tool_call_id st0 = None"
    and "current_tool_call_id st1 = Some tid" and "tid \<noteq> []"
  shows "\<exists>st2. stream_claude_sdk lib fts input_messages st0 msgs raises =
            (evs @ [ToolCallEnd (Named tid)]
                 @ (if in_thinking_block st1 then [ThinkingTextMessageEnd, ThinkingEnd] else [])
                 @ (case current_message_id st1 of
                      None \<Rightarrow> []
                    | Some mid \<Rightarrow> if has_streamed_text st1 then [TextMessageEnd mid] else [])
                 @ messages_snapshot input_messages st2,
             (if broke then None else raises), st2)
         \<and> current_tool_call_id st2 = None \<and> pending_msg st2 = None
         \<and> (\<exists>name parent. ToolCallStart (Named tid) name parent \<in> set evs)"
proof -
  from stream_loop_open_tool [OF assms(1,3,4)] assms(2)
  have started: "\<exists>name parent. ToolCallStart (Named tid) name parent \<in> set evs" by simp
  have cl: "snd (cleanup st1) = [ToolCallEnd (Named tid)]
                 @ (if in_thinking_block st1 then [ThinkingTextMessageEnd, ThinkingEnd] else [])
                 @ (case current_message_id st1 of
                      None \<Rightarrow> []
                    | Some mid \<Rightarrow> if has_streamed_text st1 then [TextMessageEnd mid] else [])"
    using assms(3,4) by (simp add: cleanup_fields)
  have fs: "current_tool_call_id (fst (cleanup st1)) = None" "pending_msg (fst (cleanup st1)) = None"
    using assms(3,4) by (simp_all add: cleanup_fields)
  have "stream_claude_sdk lib fts input_messages st0 msgs raises =
            (evs @ snd (cleanup st1) @ messages_snapshot input_messages (fst (cleanup st1)),
             (if broke then None else raises), fst (cleanup st1))"
    using assms(1) by (simp add: stream_claude_sdk_def split_beta)
  with cl fs started show ?thesis by auto
qed

lemma cleanup_closes_open_tool_call_example:
  "snd (snd (stream_loop example_lib {} (init_tstate JNull 0) example_interrupted_stream)) = False
   \<and> current_tool_call_id (init_tstate JNull 0) = None
   \<and> current_tool_call_id (fst (stream_loop example_lib {} (init_tstate JNull 0) example_interrupted_stream))
       = Some ''b''
   \<and> (\<exists>st2. stream_claude_sdk example_lib {} [] (init_tstate JNull 0) example_interrupted_stream
               (Some (PyException ''RuntimeError'' ''boom'')) =
             ([TextMessageStart (Uuid 0) ''assistant'', TextMessageContent (Uuid 0) ''Hi'',
               ToolCallStart (Named ''b'') ''Read'' (Some (Uuid 0)), ToolCallArgs (Named ''b'') ''{'']
              @ [ToolCallEnd (Named ''b'')] @ [] @ [TextMessageEnd (Uuid 0)]
              @ messages_snapshot [] st2,
              Some (PyException ''RuntimeError'' ''boom''), st2)
           \<and> current_tool_call_id st2 = None \<and> pending_msg st2 = None)"
proof -
  define r where "r = stream_loop example_lib {} (init_tstate JNull 0) example_interrupted_stream"
  have evs: "fst (snd r) = [TextMessageStart (Uuid 0) ''assistant'', TextMessageContent (Uuid 0) ''Hi'',
               ToolCallStart (Named ''b'') ''Read'' (Some (Uuid 0)), ToolCallArgs (Named ''b'') ''{'']"
    unfolding r_def by code_simp
  have nb: "snd (snd r) = False"
    unfolding r_def by code_simp
  have h0: "current_tool_call_id (init_tstate JNull 0) = None"
    by (simp add: init_tstate_def)
  have h1: "current_tool_call_id (fst r) = Some ''b''"
    unfolding r_def by code_simp
  have f: "in_thinking_block (fst r) = False" "current_message_id (fst r) = Some (Uuid 0)"
      "has_streamed_text (fst r) = True"
    unfolding r_def by code_simp+
  have r: "stream_loop example_lib {} (init_tstate JNull 0) example_interrupted_stream
             = (fst r, fst (snd r), False)"
    using nb by (simp add: r_def prod_eq_iff)
  from cleanup_closes_open_tool_call [OF r h0 h1, of "[]" "Some (PyException ''RuntimeError'' ''boom'')"]
  obtain st2 where "stream_claude_sdk example_lib {} [] (init_tstate JNull 0) example_interrupted_stream
               (Some (PyException ''RuntimeError'' ''boom'')) =
             (fst (snd r) @ [ToolCallEnd (Named ''b'')] @ [] @ [TextMessageEnd (Uuid 0)]
              @ messages_snapshot [] st2,
              Some (PyException ''RuntimeError'' ''boom''), st2)"
     and "current_tool_call_id st2 = None" and "pending_msg st2 = None"
    by (auto simp: f)
  with evs nb h0 h1 show ?thesis
    unfolding r_def by auto
qed

text \<open>
  Claim C2 at a concrete stream: the block of the backend tool call \<^verbatim>\<open>a\<close> is closed by
  \<^verbatim>\<open>content_block_stop\<close>, which emits no tool-call-end and forgets the call, the tool call
  \<^verbatim>\<open>b\<close> is opened, and the stream raises. The cleanup block closes the open call \<^verbatim>\<open>b\<close>
  only, so that the output has a tool-call-start for \<^verbatim>\<open>a\<close> and for \<^verbatim>\<open>b\<close> and a
  tool-call-end for \<^verbatim>\<open>b\<close> alone, whereas the claim has a matching tool-call-end for every
  tool-call-start.
\<close>

theorem unmatched_tool_call_start:
  "fst (stream_claude_sdk example_lib {} [] (init_tstate JNull 0)
     [StreamEvent (ContentBlockStart (ToolUseStartBlock (Some ''a'') (Some ''Read''))),
      StreamEvent ContentBlockStop,
      StreamEvent (ContentBlockStart (ToolUseStartBlock (Some ''b'') (Some ''Read'')))]
     (Some (PyException ''RuntimeError'' ''boom''))) =
   [ToolCallStart (Named ''a'') ''Read'' None,
    ToolCallStart (Named ''b'') ''Read'' None,
    ToolCallEnd (Named ''b'')]"
  by code_simp

section \<open>Turn errors\<close>

lemma query_items:
  "query (map Item msgs @ q) = (case query q of None \<Rightarrow> None | Some (ms, r) \<Rightarrow> Some (msgs @ ms, r))"
  by (induction msgs) (auto split: option.splits)

lemma query_run_turn: "query (snd (run_turn w t)) = Some (forwarded t, turn_exception t)"
  by (simp add: run_turn_queue query_items split: option.splits)

lemma event_classes_not_run:
  "is_tool_call_event e \<Longrightarrow> \<not> is_run_event e"
  "is_state_snapshot e \<Longrightarrow> \<not> is_run_event e"
  "is_end_or_snapshot e \<Longrightarrow> \<not> is_run_event e"
  "uuid_between lo hi (text_event_id e) \<Longrightarrow> \<not> is_run_event e"
  by (cases e; simp)+

lemma close_tool_call_events:
  "\<forall>e\<in>set (snd (close_tool_call lib fts s)). is_state_snapshot e \<or> is_end_or_snapshot e"
proof (cases "truthy_str (current_tool_call_id s)")
  case False
  then show ?thesis by (simp add: close_tool_call_closed)
next
  case True
  then obtain tid where t: "current_tool_call_id s = Some tid" "tid \<noteq> []"
    by (cases "current_tool_call_id s") auto
  have snap: "\<forall>e\<in>set (case current_tool_call_name s of
              None \<Rightarrow> []
            | Some n \<Rightarrow> if is_state_management_tool n then snd (intercept_state_update lib s) else []).
          is_state_snapshot e"
    using intercept_state_update_fields(17) [of lib s] by (auto split: option.splits)
  show ?thesis
  proof (cases "case current_tool_display_name s of None \<Rightarrow> True | Some d \<Rightarrow> d \<notin> fts")
    case True
    from close_tool_call_backend(10) [OF t True, of lib] snap show ?thesis by simp
  next
    case False
    then obtain d where "current_tool_display_name s = Some d" "d \<in> fts"
      by (cases "current_tool_display_name s") auto
    from close_tool_call_frontend(5) [OF t this, of lib] snap show ?thesis
      by (auto split: option.splits if_splits)
  qed
qed

lemma on_stream_event_no_run_event:
  assumes "on_stream_event lib fts st ev = (st', evs)"
  shows "\<forall>e\<in>set evs. \<not> is_run_event e"
proof (cases ev)
  case MessageStart
  with assms show ?thesis by (auto simp: on_stream_event_def on_message_start_def Let_def)
next
  case (ContentBlockDelta d)
  with assms show ?thesis
    by (cases d)
       (auto simp: on_stream_event_def on_text_delta_def on_thinking_delta_def
          on_input_json_delta_def split: option.splits if_splits)
next
  case (ContentBlockStart b)
  with assms show ?thesis
    by (cases b)
       (auto simp: on_stream_event_def on_content_block_start_def Let_def
             split: option.splits if_splits)
next
  case ContentBlockStop
  with assms have evs: "evs = snd (close_thinking_block st)
                          @ snd (close_tool_call lib fts (fst (close_thinking_block st)))"
    by (auto simp: on_stream_event_def on_content_block_stop_def split_beta)
  from close_tool_call_events [of lib fts "fst (close_thinking_block st)"] evs
  show ?thesis
    by (auto simp: close_thinking_block_fields dest: event_classes_not_run)
next
  case MessageStop
  with assms show ?thesis
    by (auto simp: on_stream_event_def on_message_stop_def Let_def split: option.splits if_splits)
next
  case MessageDelta
  with assms show ?thesis by (auto simp: on_stream_event_def)
next
  case OtherStreamEvent
  with assms show ?thesis by (auto simp: on_stream_event_def)
qed

lemma process_message_no_run_event:
  assumes "process_message lib fts st m = (st', evs)"
  shows "\<forall>e\<in>set evs. \<not> is_run_event e"
proof (cases "\<exists>ev. m = StreamEvent ev")
  case True
  then obtain ev where "m = StreamEvent ev" by blast
  with assms(1) have "on_stream_event lib fts st ev = (st', evs)"
    by (simp add: process_message_def)
  from on_stream_event_no_run_event [OF this] show ?thesis .
next
  case False
  then have "\<forall>ev. m \<noteq> StreamEvent ev" by blast
  from complete_message_frame [OF assms(1) this]
  show ?thesis by (blast dest: event_classes_not_run)
qed

lemma stream_loop_no_run_event:
  assumes "stream_loop lib fts st ms = (st', evs, b)"
  shows "\<forall>e\<in>set evs. \<not> is_run_event e"
  using assms
proof (induction ms arbitrary: st st' evs b)
  case Nil
  then show ?case by simp
next
  case (Cons m ms)
  let ?s = "st\<lparr>message_count := message_count st + 1\<rparr>"
  show ?case
  proof (cases "halt_event_stream st")
    case True
    with Cons.prems show ?thesis by auto
  next
    case False
    obtain s2 e2 where pm: "process_message lib fts ?s m = (s2, e2)"
      by (cases "process_message lib fts ?s m")
    obtain s3 e3 b3 where sl: "stream_loop lib fts s2 ms = (s3, e3, b3)"
      by (cases "stream_loop lib fts s2 ms") auto
    from Cons.prems(1) False pm sl have eq: "evs = e2 @ e3" by auto
    from process_message_no_run_event [OF pm] Cons.IH [OF sl] eq show ?thesis by auto
  qed
qed

lemma stream_claude_sdk_no_run_event:
  assumes "stream_claude_sdk lib fts input_messages st0 msgs raises = (evs, err, st)"
  shows "\<forall>e\<in>set evs. \<not> is_run_event e"
proof -
  obtain s1 e1 b1 where sl: "stream_loop lib fts st0 msgs = (s1, e1, b1)"
    by (cases "stream_loop lib fts st0 msgs") auto
  with assms have evs: "evs = e1 @ snd (cleanup s1) @ messages_snapshot input_messages (fst (cleanup s1))"
    by (auto simp: stream_claude_sdk_def split_beta)
  have "\<forall>e\<in>set (snd (cleanup s1)). \<not> is_run_event e"
    by (auto simp: cleanup_fields split: option.splits if_splits)
  moreover have "\<forall>e\<in>set (messages_snapshot input_messages (fst (cleanup s1))). \<not> is_run_event e"
    by (simp add: messages_snapshot_def)
  ultimately show ?thesis
    using stream_loop_no_run_event [OF sl] evs by auto
qed

lemma query_error_read_at_once:
  "query_raises t = Some e \<Longrightarrow> stream_loop lib fts st0 (forwarded t) = (st0, [], False)"
  by (simp add: forwarded_def)

text \<open>
  Claim C4, as amended. Let a turn end with an exception \<open>e\<close>, raised by \<^verbatim>\<open>client.query\<close>
  or by the iteration of the response, in a run whose input has a user message, and let
  the translator's loop process the forwarded messages without being left by \<^verbatim>\<open>break\<close>, so
  that the output queue is read up to the \<open>WorkerError\<close>. Then \<^verbatim>\<open>SessionWorker.query\<close>
  yields the forwarded messages and raises \<open>e\<close>; the translator emits the events of the
  loop, the cleanup events and the messages snapshot (if messages were produced) and
  re-raises \<open>e\<close>; and \<^verbatim>\<open>run\<close> emits the run-started event, the initial state snapshot if
  there is a state, the events of the translator and then a run-error event carrying
  \<^verbatim>\<open>str(e)\<close>, and no run-finished event.
\<close>

theorem turn_error_becomes_run_error:
  assumes exc: "turn_exception t = Some e"
    and um: "fst (process_messages input_data) \<noteq> []"
    and ids: "resolve_ids input_data uuid0 = (thread_id, run_id, uuid2)"
    and loop: "stream_loop lib (frontend_tool_names_of input_data)
                 (init_tstate (inp_state input_data) uuid2) (forwarded t) = (st1, evs, False)"
  shows "query (snd (run_turn w t)) = Some (forwarded t, Some e)
       \<and> stream_claude_sdk lib (frontend_tool_names_of input_data) (inp_messages input_data)
            (init_tstate (inp_state input_data) uuid2) (forwarded t) (Some e)
           = (evs @ snd (cleanup st1) @ messages_snapshot (inp_messages input_data) (fst (cleanup st1)),
              Some e, fst (cleanup st1))
       \<and> run lib input_data (forwarded t) (Some e) uuid0
           = RunStarted thread_id run_id input_data
             # (if truthy (inp_state input_data) then [StateSnapshot (inp_state input_data)] else [])
             @ evs @ snd (cleanup st1) @ messages_snapshot (inp_messages input_data) (fst (cleanup st1))
             @ [RunError thread_id run_id (exc_str e)]
       \<and> (\<forall>tid rid res. RunFinished tid rid res \<notin> set (run lib input_data (forwarded t) (Some e) uuid0))"
proof -
  let ?tr = "evs @ snd (cleanup st1) @ messages_snapshot (inp_messages input_data) (fst (cleanup st1))"
  have q: "query (snd (run_turn w t)) = Some (forwarded t, Some e)"
    using exc by (simp add: query_run_turn)
  have sdk: "stream_claude_sdk lib (frontend_tool_names_of input_data) (inp_messages input_data)
            (init_tstate (inp_state input_data) uuid2) (forwarded t) (Some e)
           = (?tr, Some e, fst (cleanup st1))"
    using loop by (simp add: stream_claude_sdk_def split_beta)
  obtain umsg pend where pm: "process_messages input_data = (umsg, pend)"
    by (cases "process_messages input_data")
  with um have ne: "umsg \<noteq> []" by simp
  have r: "run lib input_data (forwarded t) (Some e) uuid0
           = RunStarted thread_id run_id input_data
             # (if truthy (inp_state input_data) then [StateSnapshot (inp_state input_data)] else [])
             @ ?tr @ [RunError thread_id run_id (exc_str e)]"
    using ids pm ne sdk by (simp add: run_def Let_def)
  from stream_claude_sdk_no_run_event [OF sdk]
  have "\<forall>x\<in>set ?tr. \<not> is_run_event x" .
  then have "\<forall>tid rid res. RunFinished tid rid res \<notin> set ?tr"
    by (metis is_run_event.simps(2))
  with r have "\<forall>tid rid res. RunFinished tid rid res \<notin> set (run lib input_data (forwarded t) (Some e) uuid0)"
    by auto
  with q sdk r show ?thesis by simp
qed

theorem turn_error_becomes_run_error_witness:
  "turn_exception example_failing_turn = Some (PyException ''RuntimeError'' ''boom'')
   \<and> fst (process_messages example_input) = ''hi''
   \<and> resolve_ids example_input 0 = (Named ''t-1'', Named ''r-1'', 0)
   \<and> snd (snd (stream_loop example_lib (frontend_tool_names_of example_input)
                  (init_tstate (inp_state example_input) 0) (forwarded example_failing_turn))) = False
   \<and> query (snd (run_turn \<lparr>session_id = None\<rparr> example_failing_turn))
       = Some (forwarded example_failing_turn, Some (PyException ''RuntimeError'' ''boom''))
   \<and> run example_lib example_input (forwarded example_failing_turn)
        (Some (PyException ''RuntimeError'' ''boom'')) 0 =
      [RunStarted (Named ''t-1'') (Named ''r-1'') example_input,
       TextMessageStart (Uuid 0) ''assistant'',
       TextMessageContent (Uuid 0) ''Hi'',
       TextMessageEnd (Uuid 0),
       MessagesSnapshot
         [InputMessage \<lparr>in_id = ''u-1'', in_role = ''user'', in_content = InText ''hi''\<rparr>,
          RunMessage (AssistantMsg (Uuid 0) (Some ''Hi'') None)],
       RunError (Named ''t-1'') (Named ''r-1'') ''boom'']"
proof -
  let ?e = "PyException ''RuntimeError'' ''boom''"
  define r where "r = stream_loop example_lib (frontend_tool_names_of example_input)
                  (init_tstate (inp_state example_input) 0) (forwarded example_failing_turn)"
  have exc: "turn_exception example_failing_turn = Some ?e"
    by code_simp
  have um: "fst (process_messages example_input) = ''hi''"
    by code_simp
  then have um': "fst (process_messages example_input) \<noteq> []" by simp
  have ids: "resolve_ids example_input 0 = (Named ''t-1'', Named ''r-1'', 0)"
    by code_simp
  have nb: "snd (snd r) = False"
    unfolding r_def by code_simp
  have loop: "stream_loop example_lib (frontend_tool_names_of example_input)
                  (init_tstate (inp_state example_input) 0) (forwarded example_failing_turn)
              = (fst r, fst (snd r), False)"
    using nb by (simp add: r_def prod_eq_iff)
  have evs: "fst (snd r) = [TextMessageStart (Uuid 0) ''assistant'', TextMessageContent (Uuid 0) ''Hi'']"
    unfolding r_def by code_simp
  have cl: "snd (cleanup (fst r)) = [TextMessageEnd (Uuid 0)]"
    unfolding r_def by code_simp
  have sn: "messages_snapshot (inp_messages example_input) (fst (cleanup (fst r))) =
      [MessagesSnapshot
         [InputMessage \<lparr>in_id = ''u-1'', in_role = ''user'', in_content = InText ''hi''\<rparr>,
          RunMessage (AssistantMsg (Uuid 0) (Some ''Hi'') None)]]"
    unfolding r_def by code_simp
  have st: "truthy (inp_state example_input) = False"
    by code_simp
  from turn_error_becomes_run_error [OF exc um' ids loop, of "\<lparr>session_id = None\<rparr>"]
  have "query (snd (run_turn \<lparr>session_id = None\<rparr> example_failing_turn))
          = Some (forwarded example_failing_turn, Some ?e)"
    and "run example_lib example_input (forwarded example_failing_turn) (Some ?e) 0
           = RunStarted (Named ''t-1'') (Named ''r-1'') example_input
             # (if truthy (inp_state example_input) then [StateSnapshot (inp_state example_input)] else [])
             @ fst (snd r) @ snd (cleanup (fst r))
             @ messages_snapshot (inp_messages example_input) (fst (cleanup (fst r)))
             @ [RunError (Named ''t-1'') (Named ''r-1'') (exc_str ?e)]"
    by blast+
  with exc um ids nb evs cl sn st show ?thesis
    unfolding r_def by simp
qed

text \<open>
  Claim C4 as stated fails for a turn that raises after a frontend tool has halted the
  translator: the loop reads one more item of the queue and is left by \<^verbatim>\<open>break\<close>, the
  \<open>WorkerError\<close> behind it is never read, and \<^verbatim>\<open>run\<close> ends with a run-finished event and
  emits no run-error.
\<close>

theorem halted_turn_error_counterexample:
  "query (snd (run_turn \<lparr>session_id = None\<rparr> example_halted_failing_turn))
     = Some (forwarded example_halted_failing_turn, Some (PyException ''RuntimeError'' ''boom''))
   \<and> run example_lib example_frontend_input (forwarded example_halted_failing_turn)
        (Some (PyException ''RuntimeError'' ''boom'')) 0 =
      [RunStarted (Named ''t-1'') (Named ''r-1'') example_frontend_input,
       ToolCallStart (Named ''t1'') ''confirm'' (Some (Uuid 0)),
       ToolCallArgs (Named ''t1'') ''{}'',
       ToolCallEnd (Named ''t1''),
       ToolCallEnd (Named ''t1''),
       MessagesSnapshot
         [InputMessage \<lparr>in_id = ''u-1'', in_role = ''user'', in_content = InText ''hi''\<rparr>,
          RunMessage (AssistantMsg (Uuid 0) None (Some [ToolCall ''t1'' ''confirm'' ''{}'']))],
       RunFinished (Named ''t-1'') (Named ''r-1'') None]"
  by code_simp

text \<open>
  In general: when the loop is left by \<^verbatim>\<open>break\<close>, the exception of the turn is not read and
  \<^verbatim>\<open>run\<close> ends with a run-finished event.
\<close>

lemma halted_turn_error_not_raised:
  assumes um: "fst (process_messages input_data) \<noteq> []"
    and ids: "resolve_ids input_data uuid0 = (thread_id, run_id, uuid2)"
    and loop: "stream_loop lib (frontend_tool_names_of input_data)
                 (init_tstate (inp_state input_data) uuid2) messages = (st1, evs, True)"
  shows "run lib input_data messages raises uuid0
           = RunStarted thread_id run_id input_data
             # (if truthy (inp_state input_data) then [StateSnapshot (inp_state input_data)] else [])
             @ evs @ snd (cleanup st1) @ messages_snapshot (inp_messages input_data) (fst (cleanup st1))
             @ [RunFinished thread_id run_id (last_result_data (fst (cleanup st1)))]"
proof -
  obtain umsg pend where pm: "process_messages input_data = (umsg, pend)"
    by (cases "process_messages input_data")
  with um have ne: "umsg \<noteq> []" by simp
  have sdk: "stream_claude_sdk lib (frontend_tool_names_of input_data) (inp_messages input_data)
            (init_tstate (inp_state input_data) uuid2) messages raises
           = (evs @ snd (cleanup st1) @ messages_snapshot (inp_messages input_data) (fst (cleanup st1)),
              None, fst (cleanup st1))"
    using loop by (simp add: stream_claude_sdk_def split_beta)
  show ?thesis
    using ids pm ne sdk by (simp add: run_def Let_def)
qed

section \<open>Text message framing\<close>

text \<open>
  The end-to-end text scenario, for every library, set of frontend tools, shared state and
  identifier of the input message: the stream \<^verbatim>\<open>[message_start, text_delta("Hi"),
  text_delta(" there"), message_stop]\<close> is translated to a text-message-start, the two
  content events, the text-message-end and the messages snapshot, whose new assistant
  message has the content \<^verbatim>\<open>"Hi there"\<close>.
\<close>

lemma hi_there_scenario:
  "fst (stream_claude_sdk lib fts
          [\<lparr>in_id = i, in_role = ''user'', in_content = InText ''hi''\<rparr>]
          (init_tstate state0 uuid0)
          [StreamEvent MessageStart,
           StreamEvent (ContentBlockDelta (TextDelta ''Hi'')),
           StreamEvent (ContentBlockDelta (TextDelta '' there'')),
           StreamEvent MessageStop]
          None) =
     [TextMessageStart (Uuid uuid0) ''assistant'',
      TextMessageContent (Uuid uuid0) ''Hi'',
      TextMessageContent (Uuid uuid0) '' there'',
      TextMessageEnd (Uuid uuid0),
      MessagesSnapshot
        [InputMessage \<lparr>in_id = i, in_role = ''user'', in_content = InText ''hi''\<rparr>,
         RunMessage (AssistantMsg (Uuid uuid0) (Some ''Hi there'') None)]]"
  by (simp add: translator_defs stream_claude_sdk_def cleanup_def messages_snapshot_def
                init_tstate_def flush_pending_msg_def upsert_message_def enrich_def Let_def)


section \<open>Messages that are closed\<close>

lemma event_classes_no_text_id:
  "is_tool_call_event e \<Longrightarrow> text_event_id e = None"
  "is_state_snapshot e \<Longrightarrow> text_event_id e = None"
  by (cases e; simp)+

lemma close_tool_call_cases:
  obtains (closed) "close_tool_call lib fts s = (s, [])"
  | (backend) tid where "current_tool_call_id s = Some tid" "tid \<noteq> []"
      "case current_tool_display_name s of None \<Rightarrow> True | Some d \<Rightarrow> d \<notin> fts"
  | (frontend) tid d where "current_tool_call_id s = Some tid" "tid \<noteq> []"
      "current_tool_display_name s = Some d" "d \<in> fts"
proof (cases "truthy_str (current_tool_call_id s)")
  case False
  then show ?thesis using closed by (simp add: close_tool_call_closed)
next
  case True
  then obtain tid where t: "current_tool_call_id s = Some tid" "tid \<noteq> []"
    by (cases "current_tool_call_id s") auto
  show ?thesis
  proof (cases "case current_tool_display_name s of None \<Rightarrow> True | Some d \<Rightarrow> d \<notin> fts")
    case True
    with t show ?thesis using backend by blast
  next
    case False
    then obtain d where "current_tool_display_name s = Some d" "d \<in> fts"
      by (cases "current_tool_display_name s") auto
    with t show ?thesis using frontend by blast
  qed
qed

lemma snap_events:
  "\<forall>e\<in>set (case current_tool_call_name s of
              None \<Rightarrow> []
            | Some n \<Rightarrow> if is_state_management_tool n then snd (intercept_state_update lib s) else []).
          is_state_snapshot e"
  using intercept_state_update_fields(17) [of lib s] by (auto split: option.splits)

lemma on_content_block_stop_fresh:
  assumes "on_content_block_stop lib fts st = (st', evs)"
  shows "next_uuid st \<le> next_uuid st'"
    and "current_message_id st' = current_message_id st \<or> current_message_id st' = None"
    and "map_option pending_id (pending_msg st') = map_option pending_id (pending_msg st)
         \<or> pending_msg st' = None"
    and "\<forall>e\<in>set evs. text_event_id e = None \<or> text_event_id e = current_message_id st"
proof -
  define s1 where "s1 = fst (close_thinking_block st)"
  from assms have st': "st' = fst (close_tool_call lib fts s1)"
    and evs: "evs = snd (close_thinking_block st) @ snd (close_tool_call lib fts s1)"
    by (auto simp: on_content_block_stop_def split_beta s1_def)
  have s1: "next_uuid st \<le> next_uuid s1" "current_message_id s1 = current_message_id st"
      "pending_msg s1 = pending_msg st" "has_streamed_text s1 = has_streamed_text st"
    by (simp_all add: s1_def close_thinking_block_fields)
  have e1: "\<forall>e\<in>set (snd (close_thinking_block st)). text_event_id e = None"
    by (auto simp: close_thinking_block_fields)
  show "next_uuid st \<le> next_uuid st'"
    using s1 by (simp add: st' close_tool_call_same)
  show "current_message_id st' = current_message_id st \<or> current_message_id st' = None"
    using s1
    by (cases lib fts s1 rule: close_tool_call_cases)
       (simp_all add: st' close_tool_call_backend close_tool_call_frontend)
  show "map_option pending_id (pending_msg st') = map_option pending_id (pending_msg st)
         \<or> pending_msg st' = None"
    using s1
    by (cases lib fts s1 rule: close_tool_call_cases)
       (simp_all add: st' close_tool_call_backend close_tool_call_frontend)
  have "\<forall>e\<in>set (snd (close_tool_call lib fts s1)). text_event_id e = None \<or> text_event_id e = current_message_id st"
  proof (cases lib fts s1 rule: close_tool_call_cases)
    case closed
    then show ?thesis by simp
  next
    case (backend tid)
    from close_tool_call_backend(10) [OF backend, of lib] snap_events [where s = s1 and lib = lib]
    show ?thesis by (auto dest: event_classes_no_text_id)
  next
    case (frontend tid d)
    from close_tool_call_frontend(5) [OF frontend, of lib] snap_events [where s = s1 and lib = lib] s1
    show ?thesis by (auto dest: event_classes_no_text_id split: option.splits if_splits)
  qed
  with e1 evs show "\<forall>e\<in>set evs. text_event_id e = None \<or> text_event_id e = current_message_id st"
    by auto
qed

lemma complete_message_fresh:
  assumes "process_message lib fts st m = (st', evs)" and "\<forall>ev. m \<noteq> StreamEvent ev"
  shows "next_uuid st \<le> next_uuid st'"
    and "current_message_id st' = current_message_id st"
    and "pending_msg st' = pending_msg st"
    and "has_streamed_text st' = has_streamed_text st"
    and "halt_event_stream st' = halt_event_stream st"
    and "\<forall>e\<in>set evs. text_event_id e = None
           \<or> uuid_between (next_uuid st) (next_uuid st') (text_event_id e)"
proof -
  from complete_message_frame [OF assms]
  have eq: "st' = st\<lparr>tool_name_by_id := tool_name_by_id st', next_uuid := next_uuid st',
                processed_tool_ids := processed_tool_ids st', current_state := current_state st',
                run_messages := run_messages st', last_result_data := last_result_data st'\<rparr>"
    and n: "next_uuid st \<le> next_uuid st'"
    and ev: "\<forall>e\<in>set evs. is_tool_call_event e \<or> is_state_snapshot e
              \<or> uuid_between (next_uuid st) (next_uuid st') (text_event_id e)"
    by blast+
  show "next_uuid st \<le> next_uuid st'" by (rule n)
  from arg_cong [OF eq, of current_message_id]
  show "current_message_id st' = current_message_id st" by simp
  from arg_cong [OF eq, of pending_msg] show "pending_msg st' = pending_msg st" by simp
  from arg_cong [OF eq, of has_streamed_text]
  show "has_streamed_text st' = has_streamed_text st" by simp
  from arg_cong [OF eq, of halt_event_stream]
  show "halt_event_stream st' = halt_event_stream st" by simp
  show "\<forall>e\<in>set evs. text_event_id e = None
           \<or> uuid_between (next_uuid st) (next_uuid st') (text_event_id e)"
  proof
    fix e assume "e \<in> set evs"
    with ev have "is_tool_call_event e \<or> is_state_snapshot e
              \<or> uuid_between (next_uuid st) (next_uuid st') (text_event_id e)" by blast
    then show "text_event_id e = None
           \<or> uuid_between (next_uuid st) (next_uuid st') (text_event_id e)"
      by (auto dest: event_classes_no_text_id)
  qed
qed

lemma process_message_fresh:
  assumes "process_message lib fts st m = (st', evs)"
  shows "next_uuid st \<le> next_uuid st'"
    and "current_message_id st' = current_message_id st \<or> current_message_id st' = None
         \<or> (current_message_id st' = Some (Uuid (next_uuid st)) \<and> next_uuid st < next_uuid st')"
    and "map_option pending_id (pending_msg st') = map_option pending_id (pending_msg st)
         \<or> pending_msg st' = None
         \<or> (map_option pending_id (pending_msg st') = Some (Uuid (next_uuid st))
             \<and> next_uuid st < next_uuid st')"
    and "\<forall>e\<in>set evs. text_event_id e = None \<or> text_event_id e = current_message_id st
           \<or> uuid_between (next_uuid st) (next_uuid st') (text_event_id e)"
proof -
  have "next_uuid st \<le> next_uuid st'
    \<and> (current_message_id st' = current_message_id st \<or> current_message_id st' = None
         \<or> (current_message_id st' = Some (Uuid (next_uuid st)) \<and> next_uuid st < next_uuid st'))
    \<and> (map_option pending_id (pending_msg st') = map_option pending_id (pending_msg st)
         \<or> pending_msg st' = None
         \<or> (map_option pending_id (pending_msg st') = Some (Uuid (next_uuid st))
             \<and> next_uuid st < next_uuid st'))
    \<and> (\<forall>e\<in>set evs. text_event_id e = None \<or> text_event_id e = current_message_id st
           \<or> uuid_between (next_uuid st) (next_uuid st') (text_event_id e))"
  proof (cases m)
    case (StreamEvent ev)
    with assms have ose: "on_stream_event lib fts st ev = (st', evs)"
      by (simp add: process_message_def)
    show ?thesis
    proof (cases ev)
      case MessageStart
      with ose show ?thesis by (auto simp: on_stream_event_def on_message_start_def Let_def)
    next
      case (ContentBlockDelta d)
      with ose show ?thesis
        by (cases d)
           (auto simp: on_stream_event_def on_text_delta_def on_thinking_delta_def
              on_input_json_delta_def split: option.splits if_splits)
    next
      case (ContentBlockStart b)
      with ose show ?thesis
        by (cases b)
           (auto simp: on_stream_event_def on_content_block_start_def Let_def
                 split: option.splits if_splits)
    next
      case ContentBlockStop
      with ose have "on_content_block_stop lib fts st = (st', evs)"
        by (simp add: on_stream_event_def)
      from on_content_block_stop_fresh [OF this] show ?thesis by blast
    next
      case MessageStop
      with ose show ?thesis
        by (auto simp: on_stream_event_def on_message_stop_def Let_def flush_pending_msg_fields
                 split: option.splits if_splits)
    next
      case MessageDelta
      with ose show ?thesis by (auto simp: on_stream_event_def)
    next
      case OtherStreamEvent
      with ose show ?thesis by (auto simp: on_stream_event_def)
    qed
  next
    case (AssistantMessage c p)
    then have "\<forall>ev. m \<noteq> StreamEvent ev" by simp
    from complete_message_fresh [OF assms this] show ?thesis by auto
  next
    case (UserMessage c p)
    then have "\<forall>ev. m \<noteq> StreamEvent ev" by simp
    from complete_message_fresh [OF assms this] show ?thesis by auto
  next
    case (SystemMessage c p)
    then have "\<forall>ev. m \<noteq> StreamEvent ev" by simp
    from complete_message_fresh [OF assms this] show ?thesis by auto
  next
    case (ResultMessage c p)
    then have "\<forall>ev. m \<noteq> StreamEvent ev" by simp
    from complete_message_fresh [OF assms this] show ?thesis by auto
  next
    case OtherMessage
    with assms show ?thesis by (auto simp: process_message_def)
  qed
  then show "next_uuid st \<le> next_uuid st'"
    and "current_message_id st' = current_message_id st \<or> current_message_id st' = None
         \<or> (current_message_id st' = Some (Uuid (next_uuid st)) \<and> next_uuid st < next_uuid st')"
    and "map_option pending_id (pending_msg st') = map_option pending_id (pending_msg st)
         \<or> pending_msg st' = None
         \<or> (map_option pending_id (pending_msg st') = Some (Uuid (next_uuid st))
             \<and> next_uuid st < next_uuid st')"
    and "\<forall>e\<in>set evs. text_event_id e = None \<or> text_event_id e = current_message_id st
           \<or> uuid_between (next_uuid st) (next_uuid st') (text_event_id e)"
    by blast+
qed

lemma is_text_event_of_id: "is_text_event_of m e \<longleftrightarrow> text_event_id e = Some m"
  by (cases e) auto

lemma upsert_keeps: "x \<in> set ms \<Longrightarrow> get_msg_id y \<noteq> get_msg_id x \<Longrightarrow> x \<in> set (upsert ms y)"
  by (induction ms) auto

lemma upsert_has: "y \<in> set (upsert ms y)"
  by (induction ms) auto

lemma flush_pending_msg_keeps:
  assumes "x \<in> set (run_messages st)"
    and "map_option pending_id (pending_msg st) \<noteq> Some (get_msg_id x)"
  shows "x \<in> set (run_messages (flush_pending_msg st))"
  using assms
  by (auto simp: flush_pending_msg_def upsert_message_def Let_def intro!: upsert_keeps
           split: option.splits)

lemma process_blocks_keeps:
  assumes "process_blocks lib parent st bs = (st', evs)"
    and "x \<in> set (run_messages st)" and "get_msg_id x = Uuid n"
  shows "x \<in> set (run_messages st')"
  using assms
proof (induction bs arbitrary: st st' evs)
  case Nil
  then show ?case by simp
next
  case (Cons b bs)
  obtain s1 e1 where pb: "process_block lib parent st b = (s1, e1)"
    by (cases "process_block lib parent st b")
  obtain s2 e2 where ps: "process_blocks lib parent s1 bs = (s2, e2)"
    by (cases "process_blocks lib parent s1 bs")
  from Cons.prems(1) pb ps have eq: "st' = s2" by simp
  have "x \<in> set (run_messages s1)"
  proof (cases b)
    case (ToolUseBlock ty tid name inp)
    with pb Cons.prems(2) show ?thesis
      by (auto simp: process_block_def handle_tool_use_block_def Let_def split: if_splits)
  next
    case (ToolResultBlock ty tuid content err)
    with pb Cons.prems(2,3) show ?thesis
      by (auto simp: process_block_def upsert_message_def build_agui_tool_message_def Let_def
               intro!: upsert_keeps split: if_splits)
  next
    case (TextBlock ty t)
    with pb Cons.prems(2) show ?thesis by (auto simp: process_block_def)
  next
    case (ThinkingBlock ty t)
    with pb Cons.prems(2) show ?thesis by (auto simp: process_block_def)
  qed
  from Cons.IH [OF ps this Cons.prems(3)] eq show ?case by simp
qed

lemma build_agui_assistant_message_id:
  "build_agui_assistant_message lib content mid = Some msg \<Longrightarrow> get_msg_id msg = mid"
  by (auto simp: build_agui_assistant_message_def split_beta Let_def split: if_splits)

lemma process_message_keeps:
  assumes pm: "process_message lib fts st m = (st', evs)"
    and x: "x \<in> set (run_messages st)" and id: "get_msg_id x = Uuid n"
    and n: "n < next_uuid st"
    and cur: "current_message_id st \<noteq> Some (Uuid n)"
    and pend: "map_option pending_id (pending_msg st) \<noteq> Some (Uuid n)"
  shows "x \<in> set (run_messages st')"
proof (cases m)
  case (StreamEvent ev)
  with pm have ose: "on_stream_event lib fts st ev = (st', evs)"
    by (simp add: process_message_def)
  show ?thesis
  proof (cases ev)
    case MessageStart
    with ose x show ?thesis by (auto simp: on_stream_event_def on_message_start_def Let_def)
  next
    case (ContentBlockDelta d)
    with ose x show ?thesis
      by (cases d)
         (auto simp: on_stream_event_def on_text_delta_def on_thinking_delta_def
            on_input_json_delta_def split: option.splits if_splits)
  next
    case (ContentBlockStart b)
    with ose x show ?thesis
      by (cases b)
         (auto simp: on_stream_event_def on_content_block_start_def Let_def
               split: option.splits if_splits)
  next
    case ContentBlockStop
    define s1 where "s1 = fst (close_thinking_block st)"
    from ose ContentBlockStop have st': "st' = fst (close_tool_call lib fts s1)"
      by (auto simp: on_stream_event_def on_content_block_stop_def split_beta s1_def)
    have x1: "x \<in> set (run_messages s1)"
      using x id n
      by (auto simp: s1_def close_thinking_block_def upsert_message_def Let_def intro!: upsert_keeps)
    have p1: "pending_msg s1 = pending_msg st"
      by (simp add: s1_def close_thinking_block_fields)
    show ?thesis
    proof (cases lib fts s1 rule: close_tool_call_cases)
      case closed
      with x1 st' show ?thesis by simp
    next
      case (backend tid)
      from close_tool_call_backend(6) [OF backend, of lib] x1 st' show ?thesis by simp
    next
      case (frontend tid d)
      define is_state_tool where "is_state_tool = (case current_tool_call_name s1 of
                       None \<Rightarrow> False | Some n \<Rightarrow> is_state_management_tool n)"
      define s2 where "s2 = attach_tool_call
            (fst (if is_state_tool then intercept_state_update lib s1 else (s1, []))) tid is_state_tool"
      have "run_messages s2 = run_messages s1"
        "map_option pending_id (pending_msg s2) = map_option pending_id (pending_msg s1)"
        "current_tool_display_name s2 = Some d"
        using frontend(3)
        by (simp_all add: s2_def piece_fields)
      moreover from this frontend have "st' = fst (frontend_halt s2 tid)"
        by (simp add: st' close_tool_call_def Let_def split_beta s2_def is_state_tool_def)
      ultimately show ?thesis
        using x1 p1 pend id
        by (simp add: frontend_halt_fields flush_pending_msg_keeps)
    qed
  next
    case MessageStop
    with ose have "run_messages st' = run_messages (flush_pending_msg st)"
      by (auto simp: on_stream_event_def on_message_stop_def Let_def)
    with x pend id show ?thesis by (simp add: flush_pending_msg_keeps)
  next
    case MessageDelta
    with ose x show ?thesis by (auto simp: on_stream_event_def)
  next
    case OtherStreamEvent
    with ose x show ?thesis by (auto simp: on_stream_event_def)
  qed
next
  case (AssistantMessage content parent)
  define mid where "mid = (case current_message_id st of Some mid \<Rightarrow> mid | None \<Rightarrow> Uuid (next_uuid st))"
  define s1 where "s1 = st\<lparr>next_uuid := (case current_message_id st of Some mid \<Rightarrow> next_uuid st
                                             | None \<Rightarrow> Suc (next_uuid st))\<rparr>"
  define s2 where "s2 = (case build_agui_assistant_message lib content mid of
                           None \<Rightarrow> s1 | Some agui_msg \<Rightarrow> upsert_message s1 agui_msg)"
  from pm AssistantMessage have pb: "process_blocks lib parent s2 content = (st', evs)"
    by (simp add: process_message_def on_assistant_message_def s1_def s2_def mid_def Let_def
             split: option.splits)
  have "mid \<noteq> Uuid n"
    using cur n by (auto simp: mid_def split: option.splits)
  then have "x \<in> set (run_messages s2)"
    using x id
    by (auto simp: s2_def s1_def upsert_message_def intro!: upsert_keeps
             dest!: build_agui_assistant_message_id split: option.splits)
  from process_blocks_keeps [OF pb this id] show ?thesis .
next
  case (UserMessage content parent)
  with pm obtain bs where pb: "process_blocks lib parent st bs = (st', evs)"
    by (auto simp: process_message_def on_user_message_def)
  from process_blocks_keeps [OF pb x id] show ?thesis .
next
  case (SystemMessage subtype data)
  with pm x id n show ?thesis
    by (auto simp: process_message_def on_system_message_def upsert_message_def Let_def
             intro!: upsert_keeps split: if_splits)
next
  case (ResultMessage result_text data)
  with pm x id n show ?thesis
    by (auto simp: process_message_def on_result_message_def upsert_message_def Let_def
             intro!: upsert_keeps split: option.splits if_splits)
next
  case OtherMessage
  with pm x show ?thesis by (auto simp: process_message_def)
qed

section \<open>Text messages that are framed\<close>

lemma stream_loop_step:
  assumes "stream_loop lib fts st (m # ms) = (st', evs, b)" and "\<not> halt_event_stream st"
  obtains s2 e2 e3 where
    "process_message lib fts (st\<lparr>message_count := message_count st + 1\<rparr>) m = (s2, e2)"
    "stream_loop lib fts s2 ms = (st', e3, b)" "evs = e2 @ e3"
proof -
  obtain s2 e2 where pm: "process_message lib fts (st\<lparr>message_count := message_count st + 1\<rparr>) m = (s2, e2)"
    by (cases "process_message lib fts (st\<lparr>message_count := message_count st + 1\<rparr>) m")
  obtain s3 e3 b3 where sl: "stream_loop lib fts s2 ms = (s3, e3, b3)"
    by (cases "stream_loop lib fts s2 ms") auto
  from assms pm sl have "st' = s3" "evs = e2 @ e3" "b = b3" by auto
  with pm sl that show ?thesis by blast
qed

text \<open>
  Once a message is closed, the loop emits no text-message event under its id and keeps it
  among the messages of the run.
\<close>

lemma stream_loop_after_message:
  assumes "stream_loop lib fts st ms = (st', evs, b)"
    and "n < next_uuid st"
    and "current_message_id st \<noteq> Some (Uuid n)"
    and "map_option pending_id (pending_msg st) \<noteq> Some (Uuid n)"
    and "x \<in> set (run_messages st)" and "get_msg_id x = Uuid n"
  shows "current_message_id st' \<noteq> Some (Uuid n)
       \<and> map_option pending_id (pending_msg st') \<noteq> Some (Uuid n)
       \<and> (\<forall>e\<in>set evs. \<not> is_text_event_of (Uuid n) e)
       \<and> x \<in> set (run_messages st')"
  using assms
proof (induction ms arbitrary: st st' evs b)
  case Nil
  then show ?case by simp
next
  case (Cons m ms)
  show ?case
  proof (cases "halt_event_stream st")
    case True
    with Cons.prems show ?thesis by auto
  next
    case False
    define s where "s = st\<lparr>message_count := message_count st + 1\<rparr>"
    from Cons.prems(1) False obtain s2 e2 e3 where
      pm: "process_message lib fts s m = (s2, e2)"
      and sl: "stream_loop lib fts s2 ms = (st', e3, b)" and evs: "evs = e2 @ e3"
      unfolding s_def by (rule stream_loop_step)
    note fr = process_message_fresh [OF pm]
    from Cons.prems(2-6) have inv: "n < next_uuid s" "current_message_id s \<noteq> Some (Uuid n)"
        "map_option pending_id (pending_msg s) \<noteq> Some (Uuid n)"
        "x \<in> set (run_messages s)"
      by (simp_all add: s_def)
    from fr(1) inv(1) have n2: "n < next_uuid s2" by simp
    from fr(2) inv(1,2) have c2: "current_message_id s2 \<noteq> Some (Uuid n)" by auto
    have p2: "map_option pending_id (pending_msg s2) \<noteq> Some (Uuid n)"
    proof
      assume a: "map_option pending_id (pending_msg s2) = Some (Uuid n)"
      from fr(3) show False
      proof (elim disjE conjE)
        assume "map_option pending_id (pending_msg s2) = map_option pending_id (pending_msg s)"
        with a inv(3) show False by simp
      next
        assume "pending_msg s2 = None"
        with a show False by simp
      next
        assume "map_option pending_id (pending_msg s2) = Some (Uuid (next_uuid s))"
        with a inv(1) show False by simp
      qed
    qed
    have e2: "\<forall>e\<in>set e2. \<not> is_text_event_of (Uuid n) e"
    proof
      fix e assume "e \<in> set e2"
      with fr(4) have "text_event_id e = None \<or> text_event_id e = current_message_id s
           \<or> uuid_between (next_uuid s) (next_uuid s2) (text_event_id e)" by blast
      with inv(1,2) show "\<not> is_text_event_of (Uuid n) e"
        by (auto simp: is_text_event_of_id)
    qed
    have k2: "x \<in> set (run_messages s2)"
      using process_message_keeps [OF pm inv(4) Cons.prems(6) inv(1,2,3)] .
    from Cons.IH [OF sl n2 c2 p2 k2 Cons.prems(6)] e2 evs show ?thesis by auto
  qed
qed

text \<open>Up to any point, no text-message event bears an id that is not drawn yet.\<close>

lemma stream_loop_before_message:
  assumes "stream_loop lib fts st ms = (st', evs, b)"
    and "\<forall>k. current_message_id st = Some (Uuid k) \<longrightarrow> k < next_uuid st"
  shows "(\<forall>k. current_message_id st' = Some (Uuid k) \<longrightarrow> k < next_uuid st')
       \<and> next_uuid st \<le> next_uuid st'
       \<and> (\<forall>e\<in>set evs. \<forall>n\<ge>next_uuid st'. \<not> is_text_event_of (Uuid n) e)"
  using assms
proof (induction ms arbitrary: st st' evs b)
  case Nil
  then show ?case by simp
next
  case (Cons m ms)
  show ?case
  proof (cases "halt_event_stream st")
    case True
    with Cons.prems show ?thesis by auto
  next
    case False
    define s where "s = st\<lparr>message_count := message_count st + 1\<rparr>"
    from Cons.prems(1) False obtain s2 e2 e3 where
      pm: "process_message lib fts s m = (s2, e2)"
      and sl: "stream_loop lib fts s2 ms = (st', e3, b)" and evs: "evs = e2 @ e3"
      unfolding s_def by (rule stream_loop_step)
    note fr = process_message_fresh [OF pm]
    from Cons.prems(2) have wf: "\<forall>k. current_message_id s = Some (Uuid k) \<longrightarrow> k < next_uuid s"
      by (simp add: s_def)
    have nu: "next_uuid s = next_uuid st" by (simp add: s_def)
    from fr(1,2) wf have wf2: "\<forall>k. current_message_id s2 = Some (Uuid k) \<longrightarrow> k < next_uuid s2"
      by auto
    from Cons.IH [OF sl wf2]
    have ih: "(\<forall>k. current_message_id st' = Some (Uuid k) \<longrightarrow> k < next_uuid st')"
        "next_uuid s2 \<le> next_uuid st'"
        "\<forall>e\<in>set e3. \<forall>n\<ge>next_uuid st'. \<not> is_text_event_of (Uuid n) e"
      by blast+
    have e2: "\<forall>e\<in>set e2. \<forall>n\<ge>next_uuid st'. \<not> is_text_event_of (Uuid n) e"
    proof (intro ballI allI impI)
      fix e n assume e: "e \<in> set e2" and n: "next_uuid st' \<le> n"
      with fr(4) have "text_event_id e = None \<or> text_event_id e = current_message_id s
           \<or> uuid_between (next_uuid s) (next_uuid s2) (text_event_id e)" by blast
      then show "\<not> is_text_event_of (Uuid n) e"
      proof (elim disjE)
        assume "text_event_id e = None"
        then show ?thesis by (simp add: is_text_event_of_id)
      next
        assume a: "text_event_id e = current_message_id s"
        show ?thesis
        proof
          assume "is_text_event_of (Uuid n) e"
          with a have "current_message_id s = Some (Uuid n)" by (simp add: is_text_event_of_id)
          with wf have "n < next_uuid s" by simp
          with fr(1) ih(2) n show False by simp
        qed
      next
        assume a: "uuid_between (next_uuid s) (next_uuid s2) (text_event_id e)"
        show ?thesis
        proof
          assume "is_text_event_of (Uuid n) e"
          with a have "n < next_uuid s2" by (simp add: is_text_event_of_id)
          with ih(2) n show False by simp
        qed
      qed
    qed
    from ih e2 fr(1) evs nu show ?thesis by auto
  qed
qed

lemma text_deltas_loop:
  assumes "current_message_id s = Some m" and "pending_msg s = Some p" and "\<not> halt_event_stream s"
  shows "\<exists>s'. stream_loop lib fts s (map (\<lambda>c. StreamEvent (ContentBlockDelta (TextDelta c))) cs) =
           (s', (if has_streamed_text s \<or> concat cs = [] then [] else [TextMessageStart m ''assistant''])
                @ map (TextMessageContent m) (filter (\<lambda>c. c \<noteq> []) cs), False)
         \<and> current_message_id s' = Some m
         \<and> pending_msg s' = Some (p\<lparr>pending_content := pending_content p @ concat cs\<rparr>)
         \<and> has_streamed_text s' = (has_streamed_text s \<or> concat cs \<noteq> [])
         \<and> \<not> halt_event_stream s' \<and> next_uuid s' = next_uuid s
         \<and> run_messages s' = run_messages s"
  using assms
proof (induction cs arbitrary: s p)
  case Nil
  then show ?case by simp
next
  case (Cons c cs)
  define s1 where "s1 = s\<lparr>message_count := message_count s + 1\<rparr>"
  obtain s2 e2 where pm: "process_message lib fts s1 (StreamEvent (ContentBlockDelta (TextDelta c))) = (s2, e2)"
    by (cases "process_message lib fts s1 (StreamEvent (ContentBlockDelta (TextDelta c)))")
  with Cons.prems have f2: "current_message_id s2 = Some m"
      "pending_msg s2 = Some (p\<lparr>pending_content := pending_content p @ c\<rparr>)"
      "has_streamed_text s2 = (has_streamed_text s \<or> c \<noteq> [])"
      "\<not> halt_event_stream s2" "next_uuid s2 = next_uuid s" "run_messages s2 = run_messages s"
      "e2 = (if c = [] then []
             else (if has_streamed_text s then [] else [TextMessageStart m ''assistant''])
                  @ [TextMessageContent m c])"
    by (auto simp: s1_def process_message_def on_stream_event_def on_text_delta_def split: if_splits)
  from Cons.IH [OF f2(1,2,4)] obtain s' where
    sl: "stream_loop lib fts s2 (map (\<lambda>c. StreamEvent (ContentBlockDelta (TextDelta c))) cs) =
           (s', (if has_streamed_text s2 \<or> concat cs = [] then [] else [TextMessageStart m ''assistant''])
                @ map (TextMessageContent m) (filter (\<lambda>c. c \<noteq> []) cs), False)"
    and f': "current_message_id s' = Some m"
      "pending_msg s' = Some (p\<lparr>pending_content := pending_content p @ c,
                                 pending_content := pending_content (p\<lparr>pending_content := pending_content p @ c\<rparr>) @ concat cs\<rparr>)"
      "has_streamed_text s' = (has_streamed_text s2 \<or> concat cs \<noteq> [])"
      "\<not> halt_event_stream s'" "next_uuid s' = next_uuid s2" "run_messages s' = run_messages s2"
    by auto
  from stream_loop_Cons [OF Cons.prems(3) pm [unfolded s1_def] sl]
  have "stream_loop lib fts s (map (\<lambda>c. StreamEvent (ContentBlockDelta (TextDelta c))) (c # cs)) =
        (s', e2 @ (if has_streamed_text s2 \<or> concat cs = [] then [] else [TextMessageStart m ''assistant''])
                @ map (TextMessageContent m) (filter (\<lambda>c. c \<noteq> []) cs), False)"
    by simp
  with f2 f' show ?case by auto
qed

lemma text_message_loop:
  assumes nh: "\<not> halt_event_stream s"
  shows "\<exists>s'. stream_loop lib fts s
               ([StreamEvent MessageStart]
                @ map (\<lambda>c. StreamEvent (ContentBlockDelta (TextDelta c))) cs
                @ [StreamEvent MessageStop]) =
           (s', (if concat cs = [] then []
                 else [TextMessageStart (Uuid (next_uuid s)) ''assistant'']
                      @ map (TextMessageContent (Uuid (next_uuid s))) (filter (\<lambda>c. c \<noteq> []) cs)
                      @ [TextMessageEnd (Uuid (next_uuid s))]), False)
         \<and> current_message_id s' = None \<and> pending_msg s' = None
         \<and> next_uuid s' = Suc (next_uuid s)
         \<and> run_messages s' =
             (if concat cs = [] then run_messages s
              else upsert (run_messages s) (AssistantMsg (Uuid (next_uuid s)) (Some (concat cs)) None))"
proof -
  let ?m = "Uuid (next_uuid s)"
  let ?p = "\<lparr>pending_id = ?m, pending_content = [], pending_tool_calls = []\<rparr>"
  define s1 where "s1 = s\<lparr>message_count := message_count s + 1\<rparr>"
  obtain s2 e2 where pm: "process_message lib fts s1 (StreamEvent MessageStart) = (s2, e2)"
    by (cases "process_message lib fts s1 (StreamEvent MessageStart)")
  with nh have f2: "current_message_id s2 = Some ?m" "pending_msg s2 = Some ?p"
      "\<not> has_streamed_text s2" "\<not> halt_event_stream s2" "next_uuid s2 = Suc (next_uuid s)"
      "run_messages s2 = run_messages s" "e2 = []"
    by (auto simp: s1_def process_message_def on_stream_event_def on_message_start_def Let_def)
  from text_deltas_loop [OF f2(1,2,4), of lib fts cs] f2 obtain s3 where
    sl: "stream_loop lib fts s2 (map (\<lambda>c. StreamEvent (ContentBlockDelta (TextDelta c))) cs) =
           (s3, (if concat cs = [] then [] else [TextMessageStart ?m ''assistant''])
                @ map (TextMessageContent ?m) (filter (\<lambda>c. c \<noteq> []) cs), False)"
    and f3: "current_message_id s3 = Some ?m"
      "pending_msg s3 = Some \<lparr>pending_id = ?m, pending_content = concat cs, pending_tool_calls = []\<rparr>"
      "has_streamed_text s3 = (concat cs \<noteq> [])"
      "\<not> halt_event_stream s3" "next_uuid s3 = Suc (next_uuid s)" "run_messages s3 = run_messages s"
    by auto
  define s4 where "s4 = s3\<lparr>message_count := message_count s3 + 1\<rparr>"
  obtain s5 e5 where pm5: "process_message lib fts s4 (StreamEvent MessageStop) = (s5, e5)"
    by (cases "process_message lib fts s4 (StreamEvent MessageStop)")
  with f3 have f5: "current_message_id s5 = None" "pending_msg s5 = None"
      "next_uuid s5 = Suc (next_uuid s)"
      "run_messages s5 = (if concat cs = [] then run_messages s
              else upsert (run_messages s) (AssistantMsg ?m (Some (concat cs)) None))"
      "e5 = (if concat cs = [] then [] else [TextMessageEnd ?m])"
    by (auto simp: s4_def process_message_def on_stream_event_def on_message_stop_def Let_def
                   flush_pending_msg_def upsert_message_def)
  have l5: "stream_loop lib fts s3 [StreamEvent MessageStop] = (s5, e5, False)"
    using f3(4) pm5 by (simp add: s4_def)
  from stream_loop_append [OF sl, of "[StreamEvent MessageStop]"] l5
  have l35: "stream_loop lib fts s2 (map (\<lambda>c. StreamEvent (ContentBlockDelta (TextDelta c))) cs
               @ [StreamEvent MessageStop]) =
           (s5, ((if concat cs = [] then [] else [TextMessageStart ?m ''assistant''])
                @ map (TextMessageContent ?m) (filter (\<lambda>c. c \<noteq> []) cs)) @ e5, False)"
    by simp
  from stream_loop_Cons [OF nh pm [unfolded s1_def] l35]
  have "stream_loop lib fts s
               ([StreamEvent MessageStart]
                @ map (\<lambda>c. StreamEvent (ContentBlockDelta (TextDelta c))) cs
                @ [StreamEvent MessageStop]) =
        (s5, e2 @ ((if concat cs = [] then [] else [TextMessageStart ?m ''assistant''])
                @ map (TextMessageContent ?m) (filter (\<lambda>c. c \<noteq> []) cs)) @ e5, False)"
    by simp
  moreover have "concat cs = [] \<Longrightarrow> filter (\<lambda>c. c \<noteq> []) cs = []"
    by (induction cs) auto
  ultimately show ?thesis
    using f2(7) f5 by auto
qed

lemma cleanup_keeps:
  assumes "x \<in> set (run_messages st)"
    and "map_option pending_id (pending_msg st) \<noteq> Some (get_msg_id x)"
  shows "x \<in> set (run_messages (fst (cleanup st)))"
  using assms
  by (auto simp: cleanup_def Let_def split_beta intro!: flush_pending_msg_keeps split: option.splits)

text \<open>
  A text message that the vendor frames by \<^verbatim>\<open>message_start\<close> and \<^verbatim>\<open>message_stop\<close>, with text
  deltas between them of which one at least is not empty, wherever it occurs in the stream
  (the translator not being halted when it starts): in the whole output of the translator
  the events under its message id are exactly one text-message-start, one content event
  for each non-empty chunk, in order, and one text-message-end; the assistant message with
  the concatenated text is among the messages of the run, and the messages snapshot is
  emitted with them.
\<close>

lemma text_message_framing:
  assumes pre: "stream_loop lib fts (init_tstate state0 uuid0) pre = (st1, evs1, False)"
    and nh: "\<not> halt_event_stream st1"
    and ne: "concat cs \<noteq> []"
  shows "\<exists>evs err st.
           stream_claude_sdk lib fts input_messages (init_tstate state0 uuid0)
             (pre @ [StreamEvent MessageStart]
                  @ map (\<lambda>c. StreamEvent (ContentBlockDelta (TextDelta c))) cs
                  @ [StreamEvent MessageStop] @ post)
             raises = (evs, err, st)
         \<and> filter (is_text_event_of (Uuid (next_uuid st1))) evs =
             [TextMessageStart (Uuid (next_uuid st1)) ''assistant'']
             @ map (TextMessageContent (Uuid (next_uuid st1))) (filter (\<lambda>c. c \<noteq> []) cs)
             @ [TextMessageEnd (Uuid (next_uuid st1))]
         \<and> AssistantMsg (Uuid (next_uuid st1)) (Some (concat cs)) None \<in> set (run_messages st)
         \<and> MessagesSnapshot (map InputMessage input_messages
                               @ map (enrich (tool_name_by_id st)) (run_messages st)) \<in> set evs"
proof -
  let ?m = "Uuid (next_uuid st1)"
  let ?x = "AssistantMsg ?m (Some (concat cs)) None"
  define seg where "seg = [StreamEvent MessageStart]
                  @ map (\<lambda>c. StreamEvent (ContentBlockDelta (TextDelta c))) cs
                  @ [StreamEvent MessageStop]"
  define segevs where "segevs = [TextMessageStart ?m ''assistant'']
             @ map (TextMessageContent ?m) (filter (\<lambda>c. c \<noteq> []) cs)
             @ [TextMessageEnd ?m]"
  have wf0: "\<forall>k. current_message_id (init_tstate state0 uuid0) = Some (Uuid k)
                 \<longrightarrow> k < next_uuid (init_tstate state0 uuid0)"
    by (simp add: init_tstate_def)
  from stream_loop_before_message [OF pre wf0]
  have before: "\<forall>e\<in>set evs1. \<not> is_text_event_of ?m e" by auto
  from text_message_loop [OF nh, of lib fts cs] obtain s2 where
    raw: "stream_loop lib fts st1 seg = (s2, (if concat cs = [] then [] else segevs), False)"
    and f2: "current_message_id s2 = None" "pending_msg s2 = None"
      "next_uuid s2 = Suc (next_uuid st1)"
    and rm: "run_messages s2 =
               (if concat cs = [] then run_messages st1 else upsert (run_messages st1) ?x)"
    unfolding seg_def segevs_def by blast
  from raw have sl2: "stream_loop lib fts st1 seg = (s2, segevs, False)"
    by (simp only: if_not_P [OF ne])
  from rm have rm2: "run_messages s2 = upsert (run_messages st1) ?x"
    by (simp only: if_not_P [OF ne])
  obtain s3 e3 b3 where sl3: "stream_loop lib fts s2 post = (s3, e3, b3)"
    by (cases "stream_loop lib fts s2 post") auto
  have x2: "?x \<in> set (run_messages s2)"
    by (simp add: rm2 upsert_has)
  have "current_message_id s3 \<noteq> Some ?m
       \<and> map_option pending_id (pending_msg s3) \<noteq> Some ?m
       \<and> (\<forall>e\<in>set e3. \<not> is_text_event_of ?m e)
       \<and> ?x \<in> set (run_messages s3)"
    by (rule stream_loop_after_message [OF sl3 _ _ _ x2]) (simp_all add: f2)
  then have after: "current_message_id s3 \<noteq> Some ?m"
      "map_option pending_id (pending_msg s3) \<noteq> Some ?m"
      "\<forall>e\<in>set e3. \<not> is_text_event_of ?m e" "?x \<in> set (run_messages s3)"
    by blast+
  from stream_loop_append [OF sl2, of post] sl3
  have l23: "stream_loop lib fts st1 (seg @ post) = (s3, segevs @ e3, b3)" by simp
  from stream_loop_append [OF pre, of "seg @ post"] l23
  have loop: "stream_loop lib fts (init_tstate state0 uuid0) (pre @ seg @ post)
                = (s3, evs1 @ segevs @ e3, b3)" by simp
  define st where "st = fst (cleanup s3)"
  have kept: "?x \<in> set (run_messages st)"
    unfolding st_def using after(2,4) by (intro cleanup_keeps) simp_all
  then have nonempty: "run_messages st \<noteq> []" by auto
  have cl: "\<forall>e\<in>set (snd (cleanup s3)). \<not> is_text_event_of ?m e"
    using after(1) by (auto simp: cleanup_fields split: option.splits if_splits)
  have sn: "messages_snapshot input_messages st =
      [MessagesSnapshot (map InputMessage input_messages
                         @ map (enrich (tool_name_by_id st)) (run_messages st))]"
    using nonempty by (simp add: messages_snapshot_def)
  have res: "stream_claude_sdk lib fts input_messages (init_tstate state0 uuid0)
               (pre @ seg @ post) raises
             = ((evs1 @ segevs @ e3) @ snd (cleanup s3) @ messages_snapshot input_messages st,
                (if b3 then None else raises), st)"
    using loop by (simp add: stream_claude_sdk_def split_beta st_def)
  have fs: "filter (is_text_event_of ?m) segevs = segevs"
    unfolding segevs_def by (simp add: filter_map comp_def)
  have fe: "filter (is_text_event_of ?m) evs1 = []" "filter (is_text_event_of ?m) e3 = []"
      "filter (is_text_event_of ?m) (snd (cleanup s3)) = []"
    using before after(3) cl by (simp_all add: filter_empty_conv)
  have "filter (is_text_event_of ?m)
          ((evs1 @ segevs @ e3) @ snd (cleanup s3) @ messages_snapshot input_messages st) = segevs"
    using fs fe sn by simp
  with res kept sn show ?thesis
    unfolding seg_def segevs_def by auto
qed

end
